theory Spec2Isabelle
  imports Complex_Main "HOL-Library.List_Lexorder" "HOL-Library.Product_Lexorder"
begin

unbundle bit_operations_syntax

chapter \<open>The spectral sampling, caching and preprocessing pipeline of hyperspec-viewer\<close>

text \<open>
  A shallow embedding of the functions of \<^verbatim>\<open>spectral_viewer_v1.6.7.py\<close> (and, for the
  smoothing stage, of \<^verbatim>\<open>spectral_viewer_v1.6.2.py\<close>) that the specification's testable
  properties are about, followed by the properties themselves. The embedding comes first,
  function by function; the proofs start at the section on the window sizing properties.
\<close>

section \<open>Window sizing\<close>

text \<open>
  \<^verbatim>\<open>_safe_window_length(n, base, min_win)\<close> (identical in v1.6.2 and v1.6.7).
  Python integers are unbounded, so they are \<^typ>\<open>int\<close>; \<^verbatim>\<open>None\<close> is \<^const>\<open>None\<close>.
\<close>

definition safe_window_length :: "int \<Rightarrow> int \<Rightarrow> int \<Rightarrow> int option" where
  "safe_window_length n base min_win =
     (if n < min_win then None
      else let k = (if n \<ge> base then base else (n OR 1));
               k' = max min_win k
           in if k' \<le> n then Some k' else None)"

section \<open>Polygon canonicalisation\<close>

text \<open>
  Python's \<^verbatim>\<open>min\<close> over a non-empty list keeps the first smallest element. Tuples
  compare lexicographically, which is the order of \<^typ>\<open>(int \<times> int) list\<close> here.
\<close>

definition py_min :: "'a::linorder list \<Rightarrow> 'a" where
  "py_min xs = foldl (\<lambda>a b. if b < a then b else a) (hd xs) (tl xs)"

text \<open>\<^verbatim>\<open>[V[i:] + V[:i] for i in range(len(V))]\<close>\<close>

definition rotations_of :: "'a list \<Rightarrow> 'a list list" where
  "rotations_of V = map (\<lambda>i. drop i V @ take i V) [0..<length V]"

definition canon_poly :: "(int \<times> int) list \<Rightarrow> (int \<times> int) list" where
  "canon_poly V =
     (if length V < 3 then V
      else let rotations = rotations_of V;
               rv = rev V;
               rotations' = rotations @ rotations_of rv
           in py_min rotations')"

text \<open>All cyclic shifts of a list, by any amount (used to state the invariance).\<close>

definition rot_set :: "'a list \<Rightarrow> 'a list set" where
  "rot_set V = {rotate k V | k. True}"

section \<open>Floating-point values\<close>

text \<open>
  A numpy array element is a real number, an infinity or NaN. The special values follow
  IEEE 754 (NaN propagates through arithmetic, \<open>inf - inf\<close> and \<open>0 / 0\<close> are NaN, every
  comparison with NaN is false). Arithmetic on finite values is exact: rounding of the
  result of an operation is not modelled, and zero has no sign. The one rounding that is
  modelled is the conversion to \<^verbatim>\<open>float32\<close>, which the source asks for by name.
\<close>

datatype fl = Fin real | PInf | NInf | NaN

definition isfinite :: "fl \<Rightarrow> bool" where
  "isfinite v = (case v of Fin _ \<Rightarrow> True | _ \<Rightarrow> False)"

definition isnan :: "fl \<Rightarrow> bool" where
  "isnan v = (case v of NaN \<Rightarrow> True | _ \<Rightarrow> False)"

fun fneg :: "fl \<Rightarrow> fl" where
  "fneg (Fin a) = Fin (- a)"
| "fneg PInf = NInf"
| "fneg NInf = PInf"
| "fneg NaN = NaN"

fun fadd :: "fl \<Rightarrow> fl \<Rightarrow> fl" where
  "fadd NaN _ = NaN"
| "fadd _ NaN = NaN"
| "fadd (Fin a) (Fin b) = Fin (a + b)"
| "fadd PInf NInf = NaN"
| "fadd NInf PInf = NaN"
| "fadd PInf _ = PInf"
| "fadd _ PInf = PInf"
| "fadd NInf _ = NInf"
| "fadd _ NInf = NInf"

definition fsub :: "fl \<Rightarrow> fl \<Rightarrow> fl" where
  "fsub a b = fadd a (fneg b)"

text \<open>The sign of a value: \<open>1\<close>, \<open>-1\<close> or \<open>0\<close> (NaN has none and is handled before).\<close>

fun fsgn :: "fl \<Rightarrow> int" where
  "fsgn (Fin a) = (if a > 0 then 1 else if a < 0 then -1 else 0)"
| "fsgn PInf = 1"
| "fsgn NInf = -1"
| "fsgn NaN = 0"

definition inf_of_sign :: "int \<Rightarrow> fl" where
  "inf_of_sign s = (if s > 0 then PInf else if s < 0 then NInf else NaN)"

fun fmul :: "fl \<Rightarrow> fl \<Rightarrow> fl" where
  "fmul NaN _ = NaN"
| "fmul _ NaN = NaN"
| "fmul (Fin a) (Fin b) = Fin (a * b)"
| "fmul a b = inf_of_sign (fsgn a * fsgn b)"

fun fdiv :: "fl \<Rightarrow> fl \<Rightarrow> fl" where
  "fdiv NaN _ = NaN"
| "fdiv _ NaN = NaN"
| "fdiv (Fin a) (Fin b) = (if b \<noteq> 0 then Fin (a / b) else inf_of_sign (fsgn (Fin a)))"
| "fdiv (Fin a) _ = Fin 0"
| "fdiv a (Fin b) = inf_of_sign (fsgn a * (if b < 0 then -1 else 1))"
| "fdiv _ _ = NaN"

fun fsqrt :: "fl \<Rightarrow> fl" where
  "fsqrt (Fin a) = (if a < 0 then NaN else Fin (sqrt a))"
| "fsqrt PInf = PInf"
| "fsqrt NInf = NaN"
| "fsqrt NaN = NaN"

text \<open>\<^verbatim>\<open>np.log10\<close>: \<open>-inf\<close> at zero, NaN below.\<close>

fun flog10 :: "fl \<Rightarrow> fl" where
  "flog10 (Fin a) = (if a > 0 then Fin (log 10 a) else if a = 0 then NInf else NaN)"
| "flog10 PInf = PInf"
| "flog10 NInf = NaN"
| "flog10 NaN = NaN"

text \<open>The IEEE comparison \<open>a < b\<close>: false when either side is NaN.\<close>

fun flt :: "fl \<Rightarrow> fl \<Rightarrow> bool" where
  "flt NaN _ = False"
| "flt _ NaN = False"
| "flt (Fin a) (Fin b) = (a < b)"
| "flt PInf _ = False"
| "flt _ PInf = True"
| "flt _ NInf = False"
| "flt NInf _ = True"

text \<open>\<^verbatim>\<open>np.maximum\<close> and \<^verbatim>\<open>np.minimum\<close> return NaN when either argument is NaN.\<close>

definition fmaximum :: "fl \<Rightarrow> fl \<Rightarrow> fl" where
  "fmaximum a b = (if isnan a \<or> isnan b then NaN else if flt a b then b else a)"

definition fminimum :: "fl \<Rightarrow> fl \<Rightarrow> fl" where
  "fminimum a b = (if isnan a \<or> isnan b then NaN else if flt b a then b else a)"

text \<open>\<^verbatim>\<open>np.clip(R, lo, hi)\<close> is \<^verbatim>\<open>minimum(maximum(R, lo), hi)\<close>, element by element.\<close>

definition np_clip :: "fl list \<Rightarrow> fl \<Rightarrow> fl \<Rightarrow> fl list" where
  "np_clip R lo hi = map (\<lambda>v. fminimum (fmaximum v lo) hi) R"

text \<open>
  \<^verbatim>\<open>np.nanmax\<close> of a non-empty array: the largest entry that is not NaN, and NaN when
  every entry is NaN.
\<close>

definition np_nanmax :: "fl list \<Rightarrow> fl" where
  "np_nanmax y =
     (case filter (\<lambda>v. \<not> isnan v) y of
        [] \<Rightarrow> NaN
      | v # vs \<Rightarrow> foldl (\<lambda>a b. if flt a b then b else a) v vs)"

subsection \<open>Conversion to float32\<close>

text \<open>
  A finite float32 is \<open>m * 2^e\<close> with \<open>|m| < 2^24\<close> and \<open>-149 \<le> e \<le> 104\<close>. The conversion
  rounds to the nearest such value, a tie going to the even significand, and a result of
  magnitude \<open>2^128\<close> or more is an infinity.
\<close>

definition pow2 :: "int \<Rightarrow> real" where
  "pow2 e = 2 powr of_int e"

definition is_f32_real :: "real \<Rightarrow> bool" where
  "is_f32_real r = (\<exists>m e::int. \<bar>m\<bar> < 2 ^ 24 \<and> - 149 \<le> e \<and> e \<le> 104 \<and> r = of_int m * pow2 e)"

definition is_float32 :: "fl \<Rightarrow> bool" where
  "is_float32 v = (case v of Fin r \<Rightarrow> is_f32_real r | _ \<Rightarrow> True)"

definition round_half_even :: "real \<Rightarrow> int" where
  "round_half_even r =
     (let f = \<lfloor>r\<rfloor>; d = r - of_int f
      in if d < 1 / 2 then f else if d > 1 / 2 then f + 1 else if even f then f else f + 1)"

definition f32_expo :: "real \<Rightarrow> int" where
  "f32_expo x = max (\<lfloor>log 2 \<bar>x\<bar>\<rfloor> - 23) (- 149)"

definition round_f32 :: "real \<Rightarrow> fl" where
  "round_f32 x =
     (if x = 0 then Fin 0
      else let e = f32_expo x;
               m = round_half_even (x / pow2 e);
               r = of_int m * pow2 e
           in if \<bar>r\<bar> \<ge> pow2 128 then (if x > 0 then PInf else NInf) else Fin r)"

text \<open>\<^verbatim>\<open>np.asarray(y, dtype=np.float32)\<close> and \<^verbatim>\<open>astype(np.float32)\<close>, element by element.\<close>

fun as_float32 :: "fl \<Rightarrow> fl" where
  "as_float32 (Fin x) = round_f32 x"
| "as_float32 v = v"

section \<open>Library functions\<close>

text \<open>
  A raised Python exception. The filters of scipy and the reductions of numpy that the
  program calls are parameters, collected in one record: \<^verbatim>\<open>scipy.signal.medfilt(y, k)\<close>,
  \<^verbatim>\<open>scipy.signal.savgol_filter(y, window_length, polyorder, deriv, mode="interp")\<close>,
  \<^verbatim>\<open>np.convolve(y, np.ones(k) / k, mode="same")\<close>, \<^verbatim>\<open>np.nanmean\<close>, \<^verbatim>\<open>np.nanstd\<close>
  (with \<open>ddof = 0\<close>) and \<^verbatim>\<open>np.argsort\<close>. A filter may raise.
\<close>

datatype exn = IndexError | ValueError | TypeError | LibraryError

record lib =
  medfilt :: "fl list \<Rightarrow> int \<Rightarrow> exn + fl list"
  savgol_filter :: "fl list \<Rightarrow> int \<Rightarrow> int \<Rightarrow> int \<Rightarrow> exn + fl list"
  convolve_same :: "fl list \<Rightarrow> int \<Rightarrow> fl list"
  nanmean :: "fl list \<Rightarrow> fl"
  nanstd :: "fl list \<Rightarrow> fl"
  argsort :: "real list \<Rightarrow> nat list"

text \<open>
  The reductions in exact arithmetic, as numpy computes them: NaN entries are replaced by
  zero and counted out; the mean is the sum over the count of the entries that are not
  NaN (so \<open>0 / 0\<close>, NaN, when there is none); the variance is the mean of the squared
  deviations of those entries.
\<close>

definition fsum :: "fl list \<Rightarrow> fl" where
  "fsum xs = foldl fadd (Fin 0) xs"

definition replace_nan :: "fl list \<Rightarrow> fl list" where
  "replace_nan y = map (\<lambda>v. if isnan v then Fin 0 else v) y"

definition count_not_nan :: "fl list \<Rightarrow> nat" where
  "count_not_nan y = length (filter (\<lambda>v. \<not> isnan v) y)"

definition exact_nanmean :: "fl list \<Rightarrow> fl" where
  "exact_nanmean y = fdiv (fsum (replace_nan y)) (Fin (real (count_not_nan y)))"

definition exact_nanvar :: "fl list \<Rightarrow> fl" where
  "exact_nanvar y =
     (let cnt = count_not_nan y;
          avg = exact_nanmean y;
          dev = map (\<lambda>v. if isnan v then Fin 0 else fsub v avg) y;
          sqr = map (\<lambda>d. fmul d d) dev;
          var = fdiv (fsum sqr) (Fin (real cnt))
      in if cnt = 0 then NaN else var)"

definition exact_nanstd :: "fl list \<Rightarrow> fl" where
  "exact_nanstd y = fsqrt (exact_nanvar y)"

text \<open>A stable sort of the indices by key: one admissible \<^verbatim>\<open>np.argsort\<close>.\<close>

definition stable_argsort :: "real list \<Rightarrow> nat list" where
  "stable_argsort xs = sort_key (\<lambda>i. xs ! i) [0..<length xs]"

text \<open>
  An instance of the library for evaluation: exact reductions, the stable sort, and
  filters that do nothing (the claims that are evaluated do not reach the filters).
\<close>

definition exact_lib :: lib where
  "exact_lib = \<lparr> medfilt = (\<lambda>y k. Inr y),
                 savgol_filter = (\<lambda>y w p d. Inr y),
                 convolve_same = (\<lambda>y k. y),
                 nanmean = exact_nanmean,
                 nanstd = exact_nanstd,
                 argsort = stable_argsort \<rparr>"

section \<open>Signal transforms\<close>

text \<open>
  \<^verbatim>\<open>_apply_mode\<close> (the same in both versions). The mode is the string held by
  \<^verbatim>\<open>mode_var\<close>; any other string than the two modes returns the converted input.
\<close>

definition apply_mode :: "string \<Rightarrow> fl list \<Rightarrow> fl list" where
  "apply_mode mode y0 =
     (let y = map as_float32 y0
      in if mode = ''Reflectance'' then y
         else if mode = ''Absorbance'' then
           (let maxv = (if y \<noteq> [] then np_nanmax y else Fin 0);
                R = (if isfinite maxv \<and> flt (Fin (3 / 2)) maxv
                     then map (\<lambda>v. fmul v (Fin (1 / 65535))) y
                     else y);
                R' = np_clip R (Fin (1 / 10 ^ 8)) (Fin 1);
                A = map (\<lambda>v. fneg (flog10 v)) R'
            in map as_float32 A)
         else y)"

text \<open>\<^verbatim>\<open>_apply_snv\<close>: the test \<^verbatim>\<open>s == 0\<close> is false for NaN and the infinities.\<close>

definition apply_snv :: "lib \<Rightarrow> fl list \<Rightarrow> fl list" where
  "apply_snv L y =
     (let m = nanmean L y;
          s = nanstd L y
      in if \<not> isfinite s \<or> s = Fin 0 then map (\<lambda>v. fsub v m) y
         else map (\<lambda>v. fdiv (fsub v m) s) y)"

text \<open>Module constants (the same in both versions).\<close>

definition SG_POLYORDER :: int where "SG_POLYORDER = 2"
definition SG_MIN_WIN :: int where "SG_MIN_WIN = 3"
definition MED_MIN_WIN :: int where "MED_MIN_WIN = 3"
definition DELETE_RADIUS_PX :: int where "DELETE_RADIUS_PX = 8"

text \<open>\<^verbatim>\<open>SG_BASE_WIN\<close> of v1.6.2, where the window is not configurable.\<close>

definition SG_BASE_WIN_v162 :: int where "SG_BASE_WIN_v162 = 15"

text \<open>\<^verbatim>\<open>_apply_denoise\<close> of v1.6.7: the base window is the field \<^verbatim>\<open>med_window\<close>.\<close>

definition apply_denoise :: "lib \<Rightarrow> int \<Rightarrow> fl list \<Rightarrow> fl list" where
  "apply_denoise L med_window y =
     (let n = int (length y)
      in case safe_window_length n med_window MED_MIN_WIN of
           None \<Rightarrow> y
         | Some k \<Rightarrow> (case medfilt L y k of Inr r \<Rightarrow> r | Inl _ \<Rightarrow> y))"

text \<open>\<^verbatim>\<open>deriv_map.get(self.sg_deriv_var.get(), 0)\<close>\<close>

definition deriv_map_get :: "string \<Rightarrow> int" where
  "deriv_map_get s =
     (if s = ''0th'' then 0 else if s = ''1st'' then 1 else if s = ''2nd'' then 2 else 0)"

text \<open>The window after the guard \<^verbatim>\<open>if win <= poly\<close>.\<close>

definition sg_window_fix :: "int \<Rightarrow> int \<Rightarrow> int" where
  "sg_window_fix win poly =
     (if win \<le> poly
      then (let w = poly + 3 in if w mod 2 = 0 then w + 1 else w)
      else win)"

text \<open>The \<^verbatim>\<open>except\<close> branch of \<^verbatim>\<open>_apply_smoothing\<close>: a moving average.\<close>

definition smoothing_fallback :: "lib \<Rightarrow> fl list \<Rightarrow> fl list" where
  "smoothing_fallback L y =
     (let n = int (length y)
      in case safe_window_length n 7 3 of
           None \<Rightarrow> y
         | Some k \<Rightarrow> convolve_same L y k)"

text \<open>
  \<^verbatim>\<open>_apply_smoothing\<close> of v1.6.7, with the fields \<^verbatim>\<open>sg_window\<close> and \<^verbatim>\<open>sg_deriv_var\<close>
  as arguments. Only the filter can raise inside the \<^verbatim>\<open>try\<close>.
\<close>

definition apply_smoothing :: "lib \<Rightarrow> int \<Rightarrow> string \<Rightarrow> fl list \<Rightarrow> fl list" where
  "apply_smoothing L sg_window sg_deriv y =
     (let n = int (length y);
          poly = SG_POLYORDER
      in case safe_window_length n sg_window SG_MIN_WIN of
           None \<Rightarrow> y
         | Some win0 \<Rightarrow>
             (let win = sg_window_fix win0 poly;
                  deriv = deriv_map_get sg_deriv
              in case savgol_filter L y win poly deriv of
                   Inr res \<Rightarrow> if deriv = 2 then map fneg res else res
                 | Inl _ \<Rightarrow> smoothing_fallback L y))"

text \<open>
  \<^verbatim>\<open>_apply_smoothing\<close> of v1.6.2: no derivative argument is passed, so the filter runs
  with its default \<open>deriv = 0\<close>. The base window is the module constant \<^verbatim>\<open>SG_BASE_WIN\<close>,
  taken as an argument here.
\<close>

definition apply_smoothing_v162 :: "lib \<Rightarrow> int \<Rightarrow> fl list \<Rightarrow> fl list" where
  "apply_smoothing_v162 L sg_base_win y =
     (let n = int (length y);
          poly = SG_POLYORDER
      in case safe_window_length n sg_base_win SG_MIN_WIN of
           None \<Rightarrow> y
         | Some win0 \<Rightarrow>
             (let win = sg_window_fix win0 poly
              in case savgol_filter L y win poly 0 of
                   Inr res \<Rightarrow> res
                 | Inl _ \<Rightarrow> smoothing_fallback L y))"


text \<open>
  \<^verbatim>\<open>_process_spectrum\<close>: denoise, then smooth, then SNV, each if its flag is set, on the
  input converted to \<^verbatim>\<open>float32\<close>, and the result converted again.
\<close>

definition process_spectrum ::
  "lib \<Rightarrow> bool \<Rightarrow> bool \<Rightarrow> bool \<Rightarrow> int \<Rightarrow> int \<Rightarrow> string \<Rightarrow> fl list \<Rightarrow> fl list" where
  "process_spectrum L noise smooth snv med_win sg_win sg_deriv y =
     (let y2 = map as_float32 y;
          y3 = (if noise then apply_denoise L med_win y2 else y2);
          y4 = (if smooth then apply_smoothing L sg_win sg_deriv y3 else y3);
          y5 = (if snv then apply_snv L y4 else y4)
      in map as_float32 y5)"

text \<open>Two abbreviations used to state the Absorbance conversion.\<close>

definition absorbance_of :: "fl \<Rightarrow> fl" where
  "absorbance_of v =
     as_float32 (fneg (flog10 (fminimum (fmaximum v (Fin (1 / 10 ^ 8))) (Fin 1))))"

definition sixteen_bit_scaled :: "fl list \<Rightarrow> bool" where
  "sixteen_bit_scaled y = (y \<noteq> [] \<and> isfinite (np_nanmax y) \<and> flt (Fin (3 / 2)) (np_nanmax y))"

section \<open>Cubes, annotations and the application state\<close>

text \<open>
  A cube \<^verbatim>\<open>data[H, W, B]\<close> is its shape and its entries. \<^verbatim>\<open>d[y, x, :]\<close> follows numpy:
  a negative index counts from the end, and an index out of range raises.
\<close>

record cube =
  cH :: nat
  cW :: nat
  cB :: nat
  cval :: "nat \<Rightarrow> nat \<Rightarrow> nat \<Rightarrow> fl"

definition cube_pixel :: "cube \<Rightarrow> int \<Rightarrow> int \<Rightarrow> exn + fl list" where
  "cube_pixel d y x =
     (let H = int (cH d); W = int (cW d);
          yy = (if y < 0 then y + H else y);
          xx = (if x < 0 then x + W else x)
      in if 0 \<le> yy \<and> yy < H \<and> 0 \<le> xx \<and> xx < W
         then Inr (map (cval d (nat yy) (nat xx)) [0..<cB d])
         else Inl IndexError)"

text \<open>
  A point and a polygon are dictionaries; the key \<^verbatim>\<open>source\<close> may be missing. The colour
  of an annotation plays no part below and is left out.
\<close>

record point =
  pt_x :: int
  pt_y :: int
  pt_source :: "string option"
  pt_label :: string
  pt_visible :: bool

record polygon =
  verts :: "(int \<times> int) list"
  pg_source :: "string option"
  pg_label :: string
  pg_visible :: bool

type_synonym flags = "string \<times> bool \<times> bool \<times> bool"
type_synonym pt_key = "string \<times> int \<times> int"
type_synonym pt_proc_key = "string \<times> int \<times> int \<times> flags \<times> int \<times> int"
type_synonym poly_key = "string \<times> (int \<times> int) list"
type_synonym poly_proc_key = "string \<times> (int \<times> int) list \<times> flags \<times> int \<times> int"
type_synonym poly_stats = "real list \<times> fl list \<times> fl list \<times> nat"

text \<open>
  The raw spectrum of a point of the current cube is stored after \<^verbatim>\<open>squeeze()\<close>, which
  turns a one-band spectrum into a scalar.
\<close>

datatype ndarray = Arr "fl list" | Scalar fl

record app =
  path_var :: string
  data :: "cube option"
  wavelengths :: "real list option"
  mode_var :: string
  noise_var :: bool
  smooth_var :: bool
  snv_var :: bool
  med_window :: int
  sg_window :: int
  sg_deriv_var :: string
  points :: "point list"
  polygons :: "polygon list"
  pt_raw_cache :: "pt_key \<rightharpoonup> ndarray"
  pt_proc_cache :: "pt_proc_key \<rightharpoonup> fl list"
  poly_idx_cache :: "poly_key \<rightharpoonup> nat list"
  poly_proc_cache :: "poly_proc_key \<rightharpoonup> poly_stats"

text \<open>
  What lies outside the program: the path normalisation of the operating system
  (\<^verbatim>\<open>_norm_path\<close>) and the cubes on disk, by normalised path (\<^verbatim>\<open>None\<close> for a path that
  is no readable \<^verbatim>\<open>.hdr\<close> file). \<^verbatim>\<open>_get_hsi_for_source\<close> memoises the load, which
  does not change what it returns.
\<close>

record env =
  norm_path :: "string \<Rightarrow> string"
  hsi_files :: "string \<Rightarrow> (cube \<times> real list) option"

definition same_source :: "env \<Rightarrow> string \<Rightarrow> string \<Rightarrow> bool" where
  "same_source E a b = (norm_path E a = norm_path E b)"

definition get_hsi_for_source :: "env \<Rightarrow> string \<Rightarrow> (cube \<times> real list) option" where
  "get_hsi_for_source E src_path =
     (if src_path = [] then None else hsi_files E (norm_path E src_path))"

definition proc_flags :: "app \<Rightarrow> flags" where
  "proc_flags st = (mode_var st, noise_var st, smooth_var st, snv_var st)"

section \<open>Point cache\<close>

text \<open>Python's \<^verbatim>\<open>xs[lo:hi]\<close>.\<close>

definition py_slice :: "'a list \<Rightarrow> int \<Rightarrow> int \<Rightarrow> 'a list" where
  "py_slice xs lo hi =
     (let n = int (length xs);
          a = (if lo < 0 then max (lo + n) 0 else min lo n);
          b = (if hi < 0 then max (hi + n) 0 else min hi n)
      in take (nat (b - a)) (drop (nat a) xs))"

text \<open>\<^verbatim>\<open>np.asarray(v).squeeze()\<close> of a one-dimensional array.\<close>

definition squeeze :: "fl list \<Rightarrow> ndarray" where
  "squeeze v = (case v of [a] \<Rightarrow> Scalar a | _ \<Rightarrow> Arr v)"

text \<open>
  \<^verbatim>\<open>_get_point_proc_slice\<close>. The result is the new state and either a raised exception or
  the returned pair, \<^const>\<open>None\<close> standing for \<^verbatim>\<open>(None, None)\<close>. The first part fetches the
  raw spectrum, from the cache or from the cube.
\<close>

definition fetch_raw :: "env \<Rightarrow> app \<Rightarrow> point \<Rightarrow> app \<times> (exn + ndarray option)" where
  "fetch_raw E st p =
     (let src = (case pt_source p of Some s \<Rightarrow> s | None \<Rightarrow> []);
          key_raw = (src, pt_x p, pt_y p)
      in case pt_raw_cache st key_raw of
           Some y_full \<Rightarrow> (st, Inr (Some y_full))
         | None \<Rightarrow>
             if same_source E src (path_var st) then
               (case data st of
                  None \<Rightarrow> (st, Inl TypeError)
                | Some d \<Rightarrow>
                    (case cube_pixel d (pt_y p) (pt_x p) of
                       Inl e \<Rightarrow> (st, Inl e)
                     | Inr v \<Rightarrow>
                         (st\<lparr>pt_raw_cache := (pt_raw_cache st)(key_raw \<mapsto> squeeze v)\<rparr>,
                          Inr (Some (squeeze v)))))
             else
               (case get_hsi_for_source E src of
                  None \<Rightarrow> (st, Inr None)
                | Some (d, wl) \<Rightarrow>
                    (case cube_pixel d (pt_y p) (pt_x p) of
                       Inl e \<Rightarrow> (st, Inl e)
                     | Inr v \<Rightarrow>
                         (st\<lparr>pt_raw_cache := (pt_raw_cache st)(key_raw \<mapsto> Arr v)\<rparr>,
                          Inr (Some (Arr v))))))"

definition get_point_proc_slice ::
  "lib \<Rightarrow> env \<Rightarrow> app \<Rightarrow> point \<Rightarrow> int \<Rightarrow> int \<Rightarrow> app \<times> (exn + (real list \<times> fl list) option)" where
  "get_point_proc_slice L E st p i_lo i_hi =
     (let src = (case pt_source p of Some s \<Rightarrow> s | None \<Rightarrow> []);
          key_raw = (src, pt_x p, pt_y p)
      in case fetch_raw E st p of
           (st1, Inl e) \<Rightarrow> (st1, Inl e)
         | (st1, Inr None) \<Rightarrow> (st1, Inr None)
         | (st1, Inr (Some y_full)) \<Rightarrow>
             (let flags = proc_flags st1;
                  key_proc = (src, pt_x p, pt_y p, flags, i_lo, i_hi)
              in case pt_proc_cache st1 key_proc of
                   Some y_proc \<Rightarrow>
                     (case wavelengths st1 of
                        None \<Rightarrow> (st1, Inl TypeError)
                      | Some wl \<Rightarrow> (st1, Inr (Some (py_slice wl i_lo (i_hi + 1), y_proc))))
                 | None \<Rightarrow>
                     (case y_full of
                        Scalar a \<Rightarrow> (st1, Inl IndexError)
                      | Arr ys \<Rightarrow>
                          (let y_slice = map as_float32 (py_slice ys i_lo (i_hi + 1));
                               y_disp = apply_mode (mode_var st1) y_slice;
                               y_proc = process_spectrum L (noise_var st1) (smooth_var st1)
                                          (snv_var st1) (med_window st1) (sg_window st1)
                                          (sg_deriv_var st1) y_disp;
                               st2 = st1\<lparr>pt_proc_cache := (pt_proc_cache st1)(key_proc \<mapsto> y_proc)\<rparr>
                           in case wavelengths st2 of
                                None \<Rightarrow> (st2, Inl TypeError)
                              | Some wl \<Rightarrow>
                                  (st2, Inr (Some (py_slice wl i_lo (i_hi + 1), y_proc)))))))"

text \<open>
  \<^verbatim>\<open>_invalidate_point_cache\<close>: the raw entry is popped, and every processed entry whose
  first three components are the key.
\<close>

definition invalidate_point_cache :: "app \<Rightarrow> string \<Rightarrow> int \<Rightarrow> int \<Rightarrow> app" where
  "invalidate_point_cache st src x y =
     st\<lparr>pt_raw_cache := (pt_raw_cache st)((src, x, y) := None),
        pt_proc_cache := (\<lambda>k. case k of (s, kx, ky, rest) \<Rightarrow>
                            if (s, kx, ky) = (src, x, y) then None else pt_proc_cache st k)\<rparr>"

text \<open>\<^verbatim>\<open>_invalidate_polygon_cache\<close>, in the same way for the two polygon caches.\<close>

definition invalidate_polygon_cache :: "app \<Rightarrow> string \<Rightarrow> (int \<times> int) list \<Rightarrow> app" where
  "invalidate_polygon_cache st src vs =
     st\<lparr>poly_idx_cache := (poly_idx_cache st)((src, vs) := None),
        poly_proc_cache := (\<lambda>k. case k of (s, kv, rest) \<Rightarrow>
                              if (s, kv) = (src, vs) then None else poly_proc_cache st k)\<rparr>"

section \<open>Polygon geometry and deletion\<close>

text \<open>\<^verbatim>\<open>zip(vs, vs[1:] + vs[:1])\<close>: the edges, the last vertex joined to the first.\<close>

definition closed_edges :: "'a list \<Rightarrow> ('a \<times> 'a) list" where
  "closed_edges vs = zip vs (drop 1 vs @ take 1 vs)"

text \<open>
  \<^verbatim>\<open>matplotlib.path.Path(vs).contains_point((x, y))\<close>, with the default radius, is the
  crossings test of matplotlib's \<^verbatim>\<open>point_in_path\<close> over the implicitly closed vertex
  sequence: an edge counts when its ends lie on the two sides of the horizontal line
  through the point and it meets the ray to the right; the point is inside when the count
  is odd.
\<close>

definition crosses :: "int \<times> int \<Rightarrow> (int \<times> int) \<times> (int \<times> int) \<Rightarrow> bool" where
  "crosses p e =
     (case p of (tx, ty) \<Rightarrow> case e of ((x0, y0), (x1, y1)) \<Rightarrow>
        (let yflag0 = (y0 \<ge> ty); yflag1 = (y1 \<ge> ty)
         in yflag0 \<noteq> yflag1
            \<and> (((y1 - ty) * (x0 - x1) \<ge> (x1 - tx) * (y0 - y1)) = yflag1)))"

definition contains_point :: "(int \<times> int) list \<Rightarrow> int \<times> int \<Rightarrow> bool" where
  "contains_point vs p = odd (length (filter (crosses p) (closed_edges vs)))"

text \<open>The local function \<^verbatim>\<open>_pt_seg_dist\<close>; the coordinates are integers.\<close>

definition pt_seg_dist :: "int \<Rightarrow> int \<Rightarrow> int \<Rightarrow> int \<Rightarrow> int \<Rightarrow> int \<Rightarrow> real" where
  "pt_seg_dist px py x1 y1 x2 y2 =
     (let vx = x2 - x1; vy = y2 - y1;
          wx = px - x1; wy = py - y1;
          denom = vx * vx + vy * vy
      in if real_of_int denom \<le> 1 / 10 ^ 12
         then (let dx = px - x1; dy = py - y1 in sqrt (real_of_int (dx * dx + dy * dy)))
         else (let t = max 0 (min 1 (real_of_int (wx * vx + wy * vy) / real_of_int denom));
                   nx = real_of_int x1 + t * real_of_int vx;
                   ny = real_of_int y1 + t * real_of_int vy;
                   dx = real_of_int px - nx;
                   dy = real_of_int py - ny
               in sqrt (dx * dx + dy * dy)))"

text \<open>The three tests of \<^verbatim>\<open>_delete_polygon_near\<close> on one vertex list.\<close>

definition vertex_hit :: "(int \<times> int) list \<Rightarrow> int \<Rightarrow> int \<Rightarrow> int \<Rightarrow> bool" where
  "vertex_hit vs x y rad =
     list_ex (\<lambda>(vx, vy). (vx - x) ^ 2 + (vy - y) ^ 2 \<le> rad * rad) vs"

definition edge_hit :: "(int \<times> int) list \<Rightarrow> int \<Rightarrow> int \<Rightarrow> real \<Rightarrow> bool" where
  "edge_hit vs x y rad2 =
     list_ex (\<lambda>((x1, y1), (x2, y2)). pt_seg_dist x y x1 y1 x2 y2 \<le> rad2) (closed_edges vs)"

text \<open>
  The first loop: the index of the first polygon, of three vertices or more, that contains
  the click. \<open>i\<close> is the index of the head of the list.
\<close>

fun find_containing :: "polygon list \<Rightarrow> int \<Rightarrow> int \<Rightarrow> nat \<Rightarrow> nat option" where
  "find_containing [] x y i = None"
| "find_containing (pg # pgs) x y i =
     (if length (verts pg) < 3 then find_containing pgs x y (Suc i)
      else if contains_point (verts pg) (x, y) then Some i
      else find_containing pgs x y (Suc i))"

text \<open>
  The second loop: for each polygon in turn, its vertices are tested and then, in the same
  iteration, its edges.
\<close>

fun find_near :: "polygon list \<Rightarrow> int \<Rightarrow> int \<Rightarrow> int \<Rightarrow> real \<Rightarrow> nat \<Rightarrow> nat option" where
  "find_near [] x y rad rad2 i = None"
| "find_near (pg # pgs) x y rad rad2 i =
     (if length (verts pg) < 3 then find_near pgs x y rad rad2 (Suc i)
      else if vertex_hit (verts pg) x y rad then Some i
      else if edge_hit (verts pg) x y rad2 then Some i
      else find_near pgs x y rad rad2 (Suc i))"

text \<open>\<^verbatim>\<open>pg = self.polygons.pop(i)\<close> followed by the invalidation of its caches.\<close>

definition pop_polygon :: "app \<Rightarrow> nat \<Rightarrow> app" where
  "pop_polygon st i =
     (let pg = polygons st ! i;
          st' = st\<lparr>polygons := take i (polygons st) @ drop (Suc i) (polygons st)\<rparr>
      in invalidate_polygon_cache st'
           (case pg_source pg of Some s \<Rightarrow> s | None \<Rightarrow> path_var st) (verts pg))"

definition delete_polygon_near :: "app \<Rightarrow> int \<Rightarrow> int \<Rightarrow> int option \<Rightarrow> app \<times> bool" where
  "delete_polygon_near st x y radius =
     (if polygons st = [] then (st, False)
      else let rad = (case radius of Some r \<Rightarrow> r | None \<Rightarrow> DELETE_RADIUS_PX);
               rad2 = real_of_int rad * (3 / 2)
           in case find_containing (polygons st) x y 0 of
                Some i \<Rightarrow> (pop_polygon st i, True)
              | None \<Rightarrow>
                  (case find_near (polygons st) x y rad rad2 0 of
                     Some i \<Rightarrow> (pop_polygon st i, True)
                   | None \<Rightarrow> (st, False)))"

text \<open>The index of the first element of a list that satisfies a test.\<close>

fun first_index :: "('a \<Rightarrow> bool) \<Rightarrow> 'a list \<Rightarrow> nat option" where
  "first_index P [] = None"
| "first_index P (a # as) =
     (if P a then Some 0 else map_option Suc (first_index P as))"

text \<open>The tests, per polygon.\<close>

definition tier1 :: "int \<Rightarrow> int \<Rightarrow> polygon \<Rightarrow> bool" where
  "tier1 x y pg = (3 \<le> length (verts pg) \<and> contains_point (verts pg) (x, y))"

definition tier2 :: "int \<Rightarrow> int \<Rightarrow> int \<Rightarrow> polygon \<Rightarrow> bool" where
  "tier2 x y rad pg = (3 \<le> length (verts pg) \<and> vertex_hit (verts pg) x y rad)"

definition tier3 :: "int \<Rightarrow> int \<Rightarrow> int \<Rightarrow> polygon \<Rightarrow> bool" where
  "tier3 x y rad pg =
     (3 \<le> length (verts pg) \<and> edge_hit (verts pg) x y (real_of_int rad * (3 / 2)))"

text \<open>
  The order of the specification, for comparison: each tier is tried on the whole list
  before the next tier is tried on any polygon.
\<close>

definition tier_major_choice :: "polygon list \<Rightarrow> int \<Rightarrow> int \<Rightarrow> int \<Rightarrow> nat option" where
  "tier_major_choice pgs x y rad =
     (case first_index (tier1 x y) pgs of
        Some i \<Rightarrow> Some i
      | None \<Rightarrow>
          (case first_index (tier2 x y rad) pgs of
             Some i \<Rightarrow> Some i
           | None \<Rightarrow> first_index (tier3 x y rad) pgs))"

text \<open>The order of the program: tier 1 on the whole list, then tiers 2 and 3 per polygon.\<close>

definition polygon_major_choice :: "polygon list \<Rightarrow> int \<Rightarrow> int \<Rightarrow> int \<Rightarrow> nat option" where
  "polygon_major_choice pgs x y rad =
     (case first_index (tier1 x y) pgs of
        Some i \<Rightarrow> Some i
      | None \<Rightarrow> first_index (\<lambda>pg. tier2 x y rad pg \<or> tier3 x y rad pg) pgs)"

section \<open>Export on the master wavelength grid\<close>



















section \<open>Auxiliary definitions for the point cache\<close>

text \<open>The source of a point as the cache keys use it: \<^verbatim>\<open>str(p.get("source", ""))\<close>.\<close>

definition point_src :: "point \<Rightarrow> string" where
  "point_src p = (case pt_source p of Some s \<Rightarrow> s | None \<Rightarrow> [])"

text \<open>
  What \<^verbatim>\<open>_get_point_proc_slice\<close> returns once the raw spectrum is fetched, as a function
  of the state before the call (used to state and prove the cache properties).
\<close>

definition slice_result ::
  "lib \<Rightarrow> app \<Rightarrow> point \<Rightarrow> int \<Rightarrow> int \<Rightarrow> exn + ndarray option \<Rightarrow> exn + (real list \<times> fl list) option" where
  "slice_result L st p i_lo i_hi r =
     (case r of
        Inl e \<Rightarrow> Inl e
      | Inr None \<Rightarrow> Inr None
      | Inr (Some y_full) \<Rightarrow>
          (case pt_proc_cache st (point_src p, pt_x p, pt_y p, proc_flags st, i_lo, i_hi) of
             Some y_proc \<Rightarrow>
               (case wavelengths st of
                  None \<Rightarrow> Inl TypeError
                | Some wl \<Rightarrow> Inr (Some (py_slice wl i_lo (i_hi + 1), y_proc)))
           | None \<Rightarrow>
               (case y_full of
                  Scalar a \<Rightarrow> Inl IndexError
                | Arr ys \<Rightarrow>
                    (case wavelengths st of
                       None \<Rightarrow> Inl TypeError
                     | Some wl \<Rightarrow>
                         Inr (Some (py_slice wl i_lo (i_hi + 1),
                           process_spectrum L (noise_var st) (smooth_var st) (snv_var st)
                             (med_window st) (sg_window st) (sg_deriv_var st)
                             (apply_mode (mode_var st) (map as_float32 (py_slice ys i_lo (i_hi + 1))))))))))"

text \<open>
  A small session for evaluation: a 2 x 2 cube of four bands whose pixel \<open>(0, 0)\<close> holds
  1, 2, 3, 4, and point caches that hold other values for the points \<open>(0, 0)\<close> and
  \<open>(1, 1)\<close>.
\<close>

definition ex_cube :: cube where
  "ex_cube = \<lparr> cH = 2, cW = 2, cB = 4,
               cval = (\<lambda>y x b. Fin (real (1 + b + 4 * (x + 2 * y)))) \<rparr>"

definition ex_env :: env where
  "ex_env = \<lparr> norm_path = (\<lambda>s. s), hsi_files = (\<lambda>s. None) \<rparr>"

definition ex_flags :: flags where
  "ex_flags = (''Reflectance'', False, False, False)"

definition ex_app :: app where
  "ex_app = \<lparr> path_var = ''cube.hdr'', data = Some ex_cube,
       wavelengths = Some [500, 510, 520, 530],
       mode_var = ''Reflectance'', noise_var = False, smooth_var = False, snv_var = False,
       med_window = 21, sg_window = 51, sg_deriv_var = ''0th'',
       points = [], polygons = [],
       pt_raw_cache = [(''cube.hdr'', 0, 0) \<mapsto> Arr [Fin 9, Fin 9, Fin 9, Fin 9],
                       (''cube.hdr'', 1, 1) \<mapsto> Arr [Fin 7, Fin 7, Fin 7, Fin 7]],
       pt_proc_cache = [(''cube.hdr'', 0, 0, ex_flags, 0, 3) \<mapsto> [Fin 9, Fin 9, Fin 9, Fin 9],
                        (''cube.hdr'', 1, 1, ex_flags, 0, 3) \<mapsto> [Fin 7, Fin 7, Fin 7, Fin 7]],
       poly_idx_cache = Map.empty, poly_proc_cache = Map.empty \<rparr>"

definition ex_point :: point where
  "ex_point = \<lparr> pt_x = 0, pt_y = 0, pt_source = Some ''cube.hdr'', pt_label = [],
                pt_visible = True \<rparr>"

section \<open>Auxiliary definitions for the polygon deletion\<close>

text \<open>\<^verbatim>\<open>rad = radius if radius is not None else DELETE_RADIUS_PX\<close>\<close>

definition radius_or_default :: "int option \<Rightarrow> int" where
  "radius_or_default radius = (case radius of Some r \<Rightarrow> r | None \<Rightarrow> DELETE_RADIUS_PX)"

text \<open>
  Two triangles for evaluation, and a click at \<open>(50, 10)\<close>: it lies in neither, 10 pixels
  from an edge of the first and more than 8 from its vertices, and 5 pixels from a vertex
  of the second.
\<close>

definition poly0 :: polygon where
  "poly0 = \<lparr> verts = [(0, 0), (100, 0), (50, - 100)], pg_source = Some ''cube.hdr'',
             pg_label = [], pg_visible = True \<rparr>"

definition poly1 :: polygon where
  "poly1 = \<lparr> verts = [(50, 15), (150, 200), (- 50, 200)], pg_source = Some ''cube.hdr'',
             pg_label = [], pg_visible = True \<rparr>"

definition ex_poly_app :: app where
  "ex_poly_app = ex_app\<lparr>polygons := [poly0, poly1]\<rparr>"

section \<open>Auxiliary definitions for the export\<close>









section \<open>Properties of the window sizing\<close>

lemma or_one_int: "(n::int) OR 1 = (if even n then n + 1 else n)"
  by (simp add: or_one_eq)

text \<open>
  Claim C1. For every argument triple, \<^const>\<open>safe_window_length\<close> returns \<^const>\<open>None\<close>
  whenever \<open>n < min_win\<close>, and a returned window \<open>k\<close> never exceeds \<open>n\<close>. The branch
  \<open>n | 1\<close>, which is \<open>n + 1\<close> for even \<open>n\<close>, is rejected: for even \<open>n\<close> below \<open>base\<close> the
  result is \<^const>\<open>None\<close>.
\<close>

theorem safe_window_length_safe:
  assumes "0 \<le> n" and "1 \<le> base" and "1 \<le> min_win"
  shows "(n < min_win \<longrightarrow> safe_window_length n base min_win = None)
       \<and> (\<forall>k. safe_window_length n base min_win = Some k \<longrightarrow> k \<le> n)
       \<and> (n < base \<and> even n \<longrightarrow> safe_window_length n base min_win = None)"
  using assms
  by (auto simp: safe_window_length_def Let_def or_one_int split: if_splits)

text \<open>
  The window sizing at concrete arguments: a signal shorter than the minimum, an even
  length below the base window, and a length above it.
\<close>

theorem safe_window_length_safe_witness:
  "(0::int) \<le> 4 \<and> (1::int) \<le> 5 \<and> (1::int) \<le> 3
   \<and> safe_window_length 2 5 3 = None
   \<and> safe_window_length 4 5 3 = None
   \<and> safe_window_length 10 5 3 = Some 5 \<and> (5::int) \<le> 10"
  using safe_window_length_safe [of 2 5 3] safe_window_length_safe [of 4 5 3]
    safe_window_length_safe [of 10 5 3]
  by (simp add: safe_window_length_def)

section \<open>Properties of the polygon canonicalisation\<close>

lemma py_min_eq_Min: "xs \<noteq> [] \<Longrightarrow> py_min xs = Min (set xs)"
proof -
  assume "xs \<noteq> []"
  then obtain x ys where xs: "xs = x # ys" by (cases xs) auto
  have f: "(\<lambda>a b. if b < a then b else a) = (\<lambda>a b::'a. min b a)"
    by (intro ext) (auto simp: min_def)
  have "foldl (\<lambda>a b. min b a) x ys = fold min ys x"
    by (simp add: foldl_conv_fold)
  moreover have "Min (set (x # ys)) = fold min ys x"
    by (rule Min.set_eq_fold)
  ultimately show ?thesis
    by (simp add: py_min_def xs f)
qed

lemma set_rotations_of: "set (rotations_of V) = (if V = [] then {} else rot_set V)"
proof (cases "V = []")
  case True
  then show ?thesis by (simp add: rotations_of_def)
next
  case False
  have "set (rotations_of V) = (\<lambda>i. rotate i V) ` {0..<length V}"
    by (auto simp: rotations_of_def rotate_drop_take image_iff)
  also have "\<dots> = rot_set V"
  proof
    show "(\<lambda>i. rotate i V) ` {0..<length V} \<subseteq> rot_set V"
      by (auto simp: rot_set_def)
    show "rot_set V \<subseteq> (\<lambda>i. rotate i V) ` {0..<length V}"
    proof
      fix W assume "W \<in> rot_set V"
      then obtain k where "W = rotate k V" by (auto simp: rot_set_def)
      then have "W = rotate (k mod length V) V" by (simp add: rotate_conv_mod [symmetric])
      moreover have "k mod length V < length V" using False by simp
      ultimately show "W \<in> (\<lambda>i. rotate i V) ` {0..<length V}" by auto
    qed
  qed
  finally show ?thesis using False by simp
qed

lemma rot_set_rotate: "rot_set (rotate j V) = rot_set V"
proof
  show "rot_set (rotate j V) \<subseteq> rot_set V"
    by (auto simp: rot_set_def rotate_rotate)
  show "rot_set V \<subseteq> rot_set (rotate j V)"
  proof
    fix W assume "W \<in> rot_set V"
    then obtain k where W: "W = rotate k V" by (auto simp: rot_set_def)
    have "length V * j - j + j = length V * j \<or> V = []"
      by (cases "length V") auto
    moreover have "rotate (length V * j) V = V" by (simp add: rotate_id)
    moreover have "rotate (length V * j - j) (rotate j V) = rotate (length V * j - j + j) V"
      by (simp only: rotate_rotate)
    ultimately have "rotate (length V * j - j) (rotate j V) = V"
      by auto
    then have "rotate k (rotate (length V * j - j) (rotate j V)) = W"
      using W by simp
    then have "rotate (k + (length V * j - j)) (rotate j V) = W"
      by (simp add: rotate_rotate add.assoc)
    then show "W \<in> rot_set (rotate j V)" unfolding rot_set_def by blast
  qed
qed

lemma rot_set_rev: "rot_set (rev V) = rev ` rot_set V"
proof
  show "rot_set (rev V) \<subseteq> rev ` rot_set V"
    by (auto simp: rot_set_def rotate_rev image_iff)
  show "rev ` rot_set V \<subseteq> rot_set (rev V)"
  proof
    fix W assume "W \<in> rev ` rot_set V"
    then obtain k where "W = rev (rotate k V)" by (auto simp: rot_set_def)
    then have "W = rotate (length V - k mod length V) (rev V)"
      using rotate_rev [of k "rev V"] by simp
    then show "W \<in> rot_set (rev V)" unfolding rot_set_def by blast
  qed
qed

lemma canon_poly_Min:
  "3 \<le> length V \<Longrightarrow> canon_poly V = Min (rot_set V \<union> rev ` rot_set V)"
proof -
  assume l: "3 \<le> length V"
  then have ne: "V \<noteq> []" by auto
  have "rotations_of V @ rotations_of (rev V) \<noteq> []"
    using l by (auto simp: rotations_of_def)
  then have "py_min (rotations_of V @ rotations_of (rev V))
      = Min (set (rotations_of V @ rotations_of (rev V)))"
    by (rule py_min_eq_Min)
  then show ?thesis using l ne
    by (simp add: canon_poly_def Let_def set_rotations_of rot_set_rev)
qed

lemma rev_rev_image: "rev ` rev ` S = S"
  by (auto simp: image_iff)

text \<open>
  Claim C2. For a vertex list of three points or more, the canonical form is unchanged by
  any rotation of the list and by reversing it; it is one of the rotations of the list or
  of its reverse, and no other of them is lexicographically smaller.
\<close>

theorem canon_poly_invariant:
  assumes "3 \<le> length V"
  shows "canon_poly (rotate k V) = canon_poly V
       \<and> canon_poly (rev V) = canon_poly V
       \<and> canon_poly V \<in> set (rotations_of V @ rotations_of (rev V))
       \<and> (\<forall>W \<in> set (rotations_of V @ rotations_of (rev V)). canon_poly V \<le> W)"
proof -
  let ?R = "rotations_of V @ rotations_of (rev V)"
  have ne: "V \<noteq> []" using assms by auto
  have set_R: "set ?R = rot_set V \<union> rev ` rot_set V"
    using ne by (simp add: set_rotations_of rot_set_rev)
  have fin: "finite (set ?R)" and nonempty: "set ?R \<noteq> {}"
    using ne by (auto simp: rotations_of_def)
  have c: "canon_poly V = Min (set ?R)"
    using assms unfolding set_R by (rule canon_poly_Min)
  have "canon_poly (rotate k V) = Min (rot_set V \<union> rev ` rot_set V)"
    using assms by (simp add: canon_poly_Min rot_set_rotate)
  moreover have "canon_poly (rev V) = Min (rot_set V \<union> rev ` rot_set V)"
    using assms by (simp add: canon_poly_Min rot_set_rev rev_rev_image Un_commute)
  moreover have "Min (set ?R) \<in> set ?R"
    using fin nonempty by (rule Min_in)
  moreover have "\<forall>W \<in> set ?R. Min (set ?R) \<le> W"
    using fin by (simp del: set_append)
  ultimately show ?thesis
    unfolding c set_R [symmetric] by (simp only: simp_thms)
qed

text \<open>
  The invariance on a quadrilateral, with its canonical form.
\<close>

theorem canon_poly_invariant_witness:
  "(3::nat) \<le> length [(2::int,0::int),(1,5),(0,1),(1,0)]
   \<and> canon_poly (rotate 1 [(2,0),(1,5),(0,1),(1,0)]) = canon_poly [(2,0),(1,5),(0,1),(1,0)]
   \<and> canon_poly (rev [(2,0),(1,5),(0,1),(1,0)]) = canon_poly [(2,0),(1,5),(0,1),(1,0)]
   \<and> canon_poly [(2,0),(1,5),(0,1),(1,0)] = [(0,1),(1,0),(2,0),(1,5)]"
proof -
  have l: "(3::nat) \<le> length [(2::int,0::int),(1,5),(0,1),(1,0)]" by simp
  have "canon_poly [(2,0),(1,5),(0,1),(1,0)] = [(0,1),(1,0),(2,0),(1,5)]"
    by (simp add: canon_poly_def rotations_of_def py_min_def upt_rec)
  then show ?thesis
    using l canon_poly_invariant [OF l, of 1] by simp
qed


section \<open>Rounding to float32\<close>

lemma rhe_close: "\<bar>of_int (round_half_even r) - r\<bar> \<le> 1 / 2"
  unfolding round_half_even_def Let_def by (auto simp: abs_if) linarith+

lemma rhe_of_int: "round_half_even (of_int k) = k"
  unfolding round_half_even_def Let_def by simp

lemma rhe_abs_le: "\<bar>r\<bar> \<le> of_int K \<Longrightarrow> \<bar>round_half_even r\<bar> \<le> K"
  using rhe_close [of r] by linarith

lemma rhe_abs_ge: "of_int K \<le> \<bar>r\<bar> \<Longrightarrow> K \<le> \<bar>round_half_even r\<bar>"
  using rhe_close [of r] by linarith

lemma pow2_pos: "0 < pow2 e"
  by (simp add: pow2_def)

lemma pow2_add: "pow2 (a + b) = pow2 a * pow2 b"
  by (simp add: pow2_def powr_add)

lemma pow2_le_iff: "pow2 a \<le> pow2 b \<longleftrightarrow> a \<le> b"
  by (simp add: pow2_def)

lemma pow2_less_iff: "pow2 a < pow2 b \<longleftrightarrow> a < b"
  by (simp add: pow2_def)

lemma pow2_nat: "pow2 (int n) = 2 ^ n"
  by (simp add: pow2_def powr_realpow)

lemma of_int_pow2: "0 \<le> k \<Longrightarrow> pow2 k = of_int (2 ^ nat k)"
  using pow2_nat [of "nat k"] by simp

lemma log2_bounds:
  assumes "x \<noteq> 0"
  shows "pow2 \<lfloor>log 2 \<bar>x\<bar>\<rfloor> \<le> \<bar>x\<bar>" and "\<bar>x\<bar> < pow2 (\<lfloor>log 2 \<bar>x\<bar>\<rfloor> + 1)"
proof -
  have pos: "0 < \<bar>x\<bar>" using assms by simp
  have "of_int \<lfloor>log 2 \<bar>x\<bar>\<rfloor> \<le> log 2 \<bar>x\<bar>" by simp
  then have "2 powr of_int \<lfloor>log 2 \<bar>x\<bar>\<rfloor> \<le> 2 powr log 2 \<bar>x\<bar>" by simp
  then show "pow2 \<lfloor>log 2 \<bar>x\<bar>\<rfloor> \<le> \<bar>x\<bar>" using pos by (simp add: pow2_def)
  have "log 2 \<bar>x\<bar> < of_int (\<lfloor>log 2 \<bar>x\<bar>\<rfloor> + 1)" by linarith
  then have "2 powr log 2 \<bar>x\<bar> < 2 powr of_int (\<lfloor>log 2 \<bar>x\<bar>\<rfloor> + 1)" by simp
  then show "\<bar>x\<bar> < pow2 (\<lfloor>log 2 \<bar>x\<bar>\<rfloor> + 1)" using pos by (simp add: pow2_def)
qed

lemma quot_bound:
  assumes "x \<noteq> 0"
  shows "\<bar>x / pow2 (f32_expo x)\<bar> < pow2 24"
proof -
  let ?L = "\<lfloor>log 2 \<bar>x\<bar>\<rfloor>"
  let ?e = "f32_expo x"
  have "?L + 1 \<le> ?e + 24" by (simp add: f32_expo_def)
  then have "pow2 (?L + 1) \<le> pow2 (?e + 24)"
    by (simp only: pow2_le_iff)
  with log2_bounds(2) [OF assms] have "\<bar>x\<bar> < pow2 (?e + 24)" by linarith
  then have "\<bar>x\<bar> < pow2 24 * pow2 ?e"
    by (simp only: pow2_add mult.commute)
  then have "\<bar>x\<bar> / pow2 ?e < pow2 24"
    using pow2_pos [of ?e] by (simp only: pos_divide_less_eq)
  then show ?thesis using pow2_pos [of ?e] by (simp only: abs_divide abs_of_pos)
qed

lemma mant_bound:
  assumes "x \<noteq> 0"
  shows "\<bar>round_half_even (x / pow2 (f32_expo x))\<bar> \<le> 2 ^ 24"
proof -
  have "pow2 24 = of_int (2 ^ 24)" using of_int_pow2 [of 24] by simp
  then have "\<bar>x / pow2 (f32_expo x)\<bar> \<le> of_int (2 ^ 24)"
    using quot_bound [OF assms] by linarith
  then show ?thesis by (rule rhe_abs_le)
qed

lemma abs_mant_real:
  "\<bar>m\<bar> \<le> (2::int) ^ 24 \<Longrightarrow> \<bar>of_int m :: real\<bar> \<le> pow2 24"
proof -
  assume "\<bar>m\<bar> \<le> (2::int) ^ 24"
  then have "(of_int \<bar>m\<bar> :: real) \<le> of_int (2 ^ 24)" by (simp only: of_int_le_iff)
  moreover have "pow2 24 = of_int (2 ^ 24)" using of_int_pow2 [of 24] by simp
  ultimately show ?thesis by (simp only: of_int_abs)
qed

lemma round_f32_finite:
  assumes "\<bar>x\<bar> < pow2 127"
  shows "isfinite (round_f32 x)"
proof (cases "x = 0")
  case True
  then show ?thesis by (simp add: round_f32_def isfinite_def)
next
  case False
  let ?L = "\<lfloor>log 2 \<bar>x\<bar>\<rfloor>"
  let ?e = "f32_expo x"
  let ?m = "round_half_even (x / pow2 ?e)"
  have "pow2 ?L \<le> \<bar>x\<bar>" by (rule log2_bounds(1) [OF False])
  also note assms
  finally have "?L < 127" by (simp only: pow2_less_iff)
  then have e: "?e \<le> 103" by (simp add: f32_expo_def)
  have m: "\<bar>of_int ?m :: real\<bar> \<le> pow2 24"
    using mant_bound [OF False] by (rule abs_mant_real)
  have "\<bar>of_int ?m * pow2 ?e\<bar> = \<bar>of_int ?m\<bar> * pow2 ?e"
    using pow2_pos [of ?e] by (simp only: abs_mult abs_of_pos)
  also have "\<dots> \<le> pow2 24 * pow2 ?e"
    using m pow2_pos [of ?e] by (simp only: mult_right_mono less_imp_le)
  also have "\<dots> = pow2 (24 + ?e)" by (simp only: pow2_add)
  also have "\<dots> < pow2 128" using e by (simp only: pow2_less_iff)
  finally have "\<not> \<bar>of_int ?m * pow2 ?e\<bar> \<ge> pow2 128" by simp
  then show ?thesis using False
    by (simp add: round_f32_def Let_def isfinite_def)
qed

lemma round_f32_is_f32:
  assumes "round_f32 x = Fin r"
  shows "is_f32_real r"
proof (cases "x = 0")
  case True
  then have "r = of_int 0 * pow2 0" using assms by (simp add: round_f32_def)
  then show ?thesis unfolding is_f32_real_def by (intro exI [of _ 0]) auto
next
  case False
  let ?L = "\<lfloor>log 2 \<bar>x\<bar>\<rfloor>"
  let ?e = "f32_expo x"
  let ?m = "round_half_even (x / pow2 ?e)"
  have r: "r = of_int ?m * pow2 ?e" and small: "\<bar>of_int ?m * pow2 ?e\<bar> < pow2 128"
    using assms False by (auto simp: round_f32_def Let_def split: if_splits)
  have e_lo: "- 149 \<le> ?e" by (simp add: f32_expo_def)
  have abs_r: "\<bar>of_int ?m * pow2 ?e\<bar> = of_int \<bar>?m\<bar> * pow2 ?e"
    using pow2_pos [of ?e] by (simp only: abs_mult abs_of_pos of_int_abs)
  have m_le: "\<bar>?m\<bar> \<le> 2 ^ 24" by (rule mant_bound [OF False])
  show ?thesis
  proof (cases "\<bar>?m\<bar> < 2 ^ 24")
    case True
    have "?e \<le> 104"
    proof (rule ccontr)
      assume "\<not> ?e \<le> 104"
      then have big: "105 \<le> ?e" by simp
      then have "105 \<le> max (?L - 23) (- 149)" unfolding f32_expo_def .
      then have "max (?L - 23) (- 149) = ?L - 23" by linarith
      then have eL: "?e = ?L - 23" unfolding f32_expo_def .
      have "pow2 23 * pow2 ?e = pow2 ?L" unfolding eL by (simp add: pow2_add [symmetric])
      also have "\<dots> \<le> \<bar>x\<bar>" by (rule log2_bounds(1) [OF False])
      finally have "pow2 23 \<le> \<bar>x\<bar> / pow2 ?e"
        using pow2_pos [of ?e] by (simp only: pos_le_divide_eq)
      then have "of_int (2 ^ 23) \<le> \<bar>x / pow2 ?e\<bar>"
        using pow2_pos [of ?e] of_int_pow2 [of 23] by (simp only: abs_divide abs_of_pos) simp
      then have "2 ^ 23 \<le> \<bar>?m\<bar>" by (rule rhe_abs_ge)
      then have "(of_int (2 ^ 23) :: real) \<le> of_int \<bar>?m\<bar>" by (simp only: of_int_le_iff)
      then have "pow2 23 \<le> of_int \<bar>?m\<bar>" using of_int_pow2 [of 23] by simp
      then have "pow2 23 * pow2 ?e \<le> of_int \<bar>?m\<bar> * pow2 ?e"
        using pow2_pos [of ?e] by (simp only: mult_right_mono less_imp_le)
      moreover have "pow2 128 \<le> pow2 (23 + ?e)" using big by (simp only: pow2_le_iff)
      ultimately have "pow2 128 \<le> of_int \<bar>?m\<bar> * pow2 ?e" by (simp only: pow2_add)
      with small abs_r show False by simp
    qed
    with True e_lo r show ?thesis unfolding is_f32_real_def by blast
  next
    case False
    with m_le have m_eq: "\<bar>?m\<bar> = 2 ^ 24" by simp
    have "of_int \<bar>?m\<bar> * pow2 ?e = pow2 24 * pow2 ?e"
      unfolding m_eq using of_int_pow2 [of 24] by simp
    also have "\<dots> = pow2 (24 + ?e)" by (simp only: pow2_add)
    finally have "pow2 (24 + ?e) < pow2 128" using small abs_r by simp
    then have e_hi: "?e + 1 \<le> 104" by (simp only: pow2_less_iff)
    have two: "pow2 (?e + 1) = pow2 ?e * 2"
      using pow2_nat [of 1] by (simp add: pow2_add)
    consider "?m = 2 ^ 24" | "?m = - (2 ^ 24)" using m_eq by linarith
    then show ?thesis
    proof cases
      case 1
      have "r = of_int (2 ^ 23) * pow2 (?e + 1)" unfolding r 1 two by simp
      moreover have "\<bar>2 ^ 23 :: int\<bar> < 2 ^ 24" by simp
      ultimately show ?thesis using e_lo e_hi unfolding is_f32_real_def
        by (intro exI [of _ "2 ^ 23"] exI [of _ "?e + 1"]) auto
    next
      case 2
      have "r = of_int (- (2 ^ 23)) * pow2 (?e + 1)" unfolding r 2 two by simp
      moreover have "\<bar>- (2 ^ 23) :: int\<bar> < 2 ^ 24" by simp
      ultimately show ?thesis using e_lo e_hi unfolding is_f32_real_def
        by (intro exI [of _ "- (2 ^ 23)"] exI [of _ "?e + 1"]) auto
    qed
  qed
qed

lemma round_f32_exact:
  assumes "is_f32_real x"
  shows "round_f32 x = Fin x"
proof (cases "x = 0")
  case True
  then show ?thesis by (simp add: round_f32_def)
next
  case False
  obtain M k :: int where M: "\<bar>M\<bar> < 2 ^ 24" and k: "- 149 \<le> k" "k \<le> 104"
    and x: "x = of_int M * pow2 k"
    using assms unfolding is_f32_real_def by blast
  let ?L = "\<lfloor>log 2 \<bar>x\<bar>\<rfloor>"
  let ?e = "f32_expo x"
  have absx: "\<bar>x\<bar> = of_int \<bar>M\<bar> * pow2 k"
    unfolding x using pow2_pos [of k] by (simp only: abs_mult abs_of_pos of_int_abs)
  have "(of_int \<bar>M\<bar> :: real) < of_int (2 ^ 24)" using M by (simp only: of_int_less_iff)
  then have Mr: "(of_int \<bar>M\<bar> :: real) < pow2 24" using of_int_pow2 [of 24] by simp
  have "pow2 ?L \<le> \<bar>x\<bar>" by (rule log2_bounds(1) [OF False])
  also have "\<bar>x\<bar> < pow2 24 * pow2 k"
    unfolding absx using Mr pow2_pos [of k] by (simp only: mult_strict_right_mono)
  also have "\<dots> = pow2 (24 + k)" by (simp only: pow2_add)
  finally have "?L < 24 + k" by (simp only: pow2_less_iff)
  then have ek: "?e \<le> k" using k by (simp add: f32_expo_def)
  define e where "e = f32_expo x"
  define d where "d = nat (k - e)"
  have kd: "k = e + int d" using ek by (simp add: d_def e_def)
  have pk: "pow2 k = pow2 e * of_int (2 ^ d)"
    by (subst kd) (simp add: pow2_add pow2_nat)
  have q: "x / pow2 e = of_int (M * 2 ^ d)"
    using pow2_pos [of e] by (simp add: x pk)
  have m: "round_half_even (x / pow2 e) = M * 2 ^ d"
    unfolding q by (rule rhe_of_int)
  have rx: "of_int (M * 2 ^ d) * pow2 e = x"
    by (simp add: x pk)
  have "\<bar>x\<bar> < pow2 (24 + k)"
    using \<open>\<bar>x\<bar> < pow2 24 * pow2 k\<close> by (simp only: pow2_add)
  also have "\<dots> \<le> pow2 128" using k by (simp only: pow2_le_iff)
  finally have "\<not> pow2 128 \<le> \<bar>x\<bar>" by simp
  then show ?thesis using False m rx
    by (simp add: round_f32_def Let_def e_def [symmetric])
qed

lemma f32_expo_2p24_1: "f32_expo 16777217 = 1"
proof -
  have "\<lfloor>log 2 \<bar>16777217 :: real\<bar>\<rfloor> = 24"
    by (subst floor_log_eq_powr_iff) (simp_all add: powr_numeral)
  then show ?thesis by (simp add: f32_expo_def)
qed

lemma round_f32_2p24_1: "round_f32 16777217 = Fin 16777216"
proof -
  have p1: "pow2 1 = 2" by (simp add: pow2_def)
  have fl: "\<lfloor>16777217 / 2 :: real\<rfloor> = 8388608" by linarith
  have "round_half_even (16777217 / 2) = 8388608"
    unfolding round_half_even_def Let_def fl by simp
  moreover have "(16777216 :: real) < pow2 128"
  proof -
    have "(16777216 :: real) = pow2 24" using pow2_nat [of 24] by simp
    also have "\<dots> < pow2 128" by (simp only: pow2_less_iff)
    finally show ?thesis .
  qed
  ultimately show ?thesis
    by (simp add: round_f32_def Let_def f32_expo_2p24_1 p1)
qed

lemma is_f32_real_small_int: "\<bar>k\<bar> < 2 ^ 24 \<Longrightarrow> is_f32_real (of_int k)"
  unfolding is_f32_real_def
  by (intro exI [of _ k] exI [of _ 0]) (simp add: pow2_def)

section \<open>Properties of the mode conversion\<close>

lemma isnan_as_float32 [simp]: "isnan (as_float32 v) \<longleftrightarrow> isnan v"
  by (cases v) (auto simp: isnan_def round_f32_def Let_def)

lemma as_float32_is_float32: "is_float32 (as_float32 v)"
  by (cases v) (auto simp: is_float32_def round_f32_is_f32 split: fl.splits)

lemma as_float32_exact: "is_float32 v \<Longrightarrow> as_float32 v = v"
  by (cases v) (auto simp: is_float32_def round_f32_exact)

lemma apply_mode_absorbance_eq:
  "apply_mode ''Absorbance'' y =
     (if sixteen_bit_scaled (map as_float32 y)
      then map (\<lambda>v. absorbance_of (fmul (as_float32 v) (Fin (1 / 65535)))) y
      else map (\<lambda>v. absorbance_of (as_float32 v)) y)"
  by (auto simp: apply_mode_def Let_def np_clip_def absorbance_of_def sixteen_bit_scaled_def)

lemma absorbance_of_nan: "isnan v \<Longrightarrow> isnan (absorbance_of v)"
  by (cases v) (auto simp: absorbance_of_def isnan_def fmaximum_def fminimum_def)

lemma pow2_3: "pow2 3 = 8"
  using pow2_nat [of 3] by simp

lemma clip_range:
  assumes "\<not> isnan v" and "lo \<le> hi"
  shows "\<exists>r. fminimum (fmaximum v (Fin lo)) (Fin hi) = Fin r \<and> lo \<le> r \<and> r \<le> hi"
  using assms by (cases v) (auto simp: isnan_def fmaximum_def fminimum_def)

lemma absorbance_of_finite:
  assumes "\<not> isnan v"
  shows "isfinite (absorbance_of v)"
proof -
  define w where "w = fminimum (fmaximum v (Fin (1 / 10 ^ 8))) (Fin 1)"
  have "\<exists>r. w = Fin r \<and> 1 / 10 ^ 8 \<le> r \<and> r \<le> 1"
    unfolding w_def by (rule clip_range [OF assms]) simp
  then obtain r where w: "w = Fin r" and r: "1 / 10 ^ 8 \<le> r" "r \<le> 1" by blast
  have rpos: "0 < r" using r(1) by (smt (verit) divide_pos_pos zero_less_power)
  have "log 10 r \<le> log 10 1" using rpos r(2) by (subst log_le_cancel_iff) auto
  then have up: "log 10 r \<le> 0" by simp
  have "log 10 (1 / 10 ^ 8) \<le> log 10 r" using rpos r(1) by (subst log_le_cancel_iff) auto
  moreover have "log 10 (1 / 10 ^ 8) = - 8"
  proof -
    have "log 10 ((10::real) ^ 8) = real 8" by (rule log_pow_cancel) simp_all
    moreover have "log 10 (1 / 10 ^ 8) = - log 10 ((10::real) ^ 8)"
      by (rule log_recip)
    ultimately show ?thesis by simp
  qed
  ultimately have lo: "- 8 \<le> log 10 r" by simp
  have "\<bar>- log 10 r\<bar> \<le> pow2 3" using lo up unfolding pow2_3 by simp
  also have "pow2 3 < pow2 127" by (simp only: pow2_less_iff)
  finally have "isfinite (round_f32 (- log 10 r))" by (rule round_f32_finite)
  then show ?thesis
    using rpos unfolding absorbance_of_def w_def [symmetric] w by simp
qed

lemma fmul_pos_not_nan: "0 < c \<Longrightarrow> isnan (fmul v (Fin c)) \<longleftrightarrow> isnan v"
  by (cases v) (auto simp: isnan_def inf_of_sign_def)

text \<open>
  Claim C3, amended. In Absorbance mode the input is first converted to float32. When the
  largest entry that is not NaN is finite and above 1.5, every entry is multiplied by
  \<open>1 / 65535\<close>; otherwise (largest entry at most 1.5, infinite, or no entry that is not
  NaN) the entries are used as they are. Each entry is then clipped to \<open>[1e-8, 1]\<close> and
  replaced by minus its decimal logarithm. The output has the length of the input; an
  entry is NaN exactly where the input is NaN and finite everywhere else.
\<close>

theorem apply_mode_absorbance:
  "length (apply_mode ''Absorbance'' y) = length y
   \<and> (sixteen_bit_scaled (map as_float32 y) \<longrightarrow>
        apply_mode ''Absorbance'' y
          = map (\<lambda>v. absorbance_of (fmul (as_float32 v) (Fin (1 / 65535)))) y)
   \<and> (\<not> sixteen_bit_scaled (map as_float32 y) \<longrightarrow>
        apply_mode ''Absorbance'' y = map (\<lambda>v. absorbance_of (as_float32 v)) y)
   \<and> (\<forall>i < length y.
        (isnan (y ! i) \<longrightarrow> isnan (apply_mode ''Absorbance'' y ! i))
      \<and> (\<not> isnan (y ! i) \<longrightarrow> isfinite (apply_mode ''Absorbance'' y ! i)))"
proof -
  have len: "length (apply_mode ''Absorbance'' y) = length y"
    by (simp add: apply_mode_absorbance_eq)
  have pt: "(isnan (y ! i) \<longrightarrow> isnan (apply_mode ''Absorbance'' y ! i))
      \<and> (\<not> isnan (y ! i) \<longrightarrow> isfinite (apply_mode ''Absorbance'' y ! i))"
    if "i < length y" for i
    using that
    by (simp add: apply_mode_absorbance_eq absorbance_of_nan absorbance_of_finite
        fmul_pos_not_nan)
  show ?thesis
    using len pt by (simp add: apply_mode_absorbance_eq)
qed

lemma as_float32_small_int: "\<bar>k\<bar> < 2 ^ 24 \<Longrightarrow> as_float32 (Fin (of_int k)) = Fin (of_int k)"
  by (simp add: round_f32_exact is_f32_real_small_int)

lemma as_float32_65535: "as_float32 (Fin 65535) = Fin 65535"
  using as_float32_small_int [of 65535] by simp

lemma as_float32_1: "as_float32 (Fin 1) = Fin 1"
  using as_float32_small_int [of 1] by simp

lemma as_float32_0: "as_float32 (Fin 0) = Fin 0"
  by (simp add: round_f32_def)

lemma absorbance_of_1: "absorbance_of (Fin 1) = Fin 0"
  by (simp add: absorbance_of_def fmaximum_def fminimum_def isnan_def as_float32_0 del: as_float32.simps)

text \<open>
  The conversion on a 16-bit-scaled input, on a unit-scaled input, and on an input with a
  NaN entry.
\<close>

theorem apply_mode_absorbance_witness:
  "apply_mode ''Absorbance'' [Fin 65535] = [Fin 0]
   \<and> apply_mode ''Absorbance'' [Fin 1] = [Fin 0]
   \<and> isnan (apply_mode ''Absorbance'' [NaN, Fin 1] ! 0)
   \<and> isfinite (apply_mode ''Absorbance'' [NaN, Fin 1] ! 1)"
proof -
  have s1: "sixteen_bit_scaled (map as_float32 [Fin 65535])"
    by (simp add: sixteen_bit_scaled_def np_nanmax_def as_float32_65535 isnan_def isfinite_def
        del: as_float32.simps)
  have s2: "\<not> sixteen_bit_scaled (map as_float32 [Fin 1])"
    by (simp add: sixteen_bit_scaled_def np_nanmax_def as_float32_1 isnan_def isfinite_def
        del: as_float32.simps)
  have a: "apply_mode ''Absorbance'' [Fin 65535] = [Fin 0]"
    using apply_mode_absorbance [of "[Fin 65535]"] s1
    by (simp add: as_float32_65535 absorbance_of_1 del: as_float32.simps)
  have b: "apply_mode ''Absorbance'' [Fin 1] = [Fin 0]"
    using apply_mode_absorbance [of "[Fin 1]"] s2
    by (simp add: as_float32_1 absorbance_of_1 del: as_float32.simps)
  have c: "isnan (apply_mode ''Absorbance'' [NaN, Fin 1] ! 0)
      \<and> isfinite (apply_mode ''Absorbance'' [NaN, Fin 1] ! 1)"
  proof -
    have "\<forall>i < length [NaN, Fin 1].
        (isnan ([NaN, Fin 1] ! i) \<longrightarrow> isnan (apply_mode ''Absorbance'' [NaN, Fin 1] ! i))
      \<and> (\<not> isnan ([NaN, Fin 1] ! i) \<longrightarrow> isfinite (apply_mode ''Absorbance'' [NaN, Fin 1] ! i))"
      using apply_mode_absorbance [of "[NaN, Fin 1]"] by blast
    from this [rule_format, of 0] this [rule_format, of 1] show ?thesis
      by (simp add: isnan_def)
  qed
  show ?thesis using a b c by simp
qed

text \<open>
  Claim C3 as stated fails: a NaN entry passes through the clipping and the logarithm, so
  the output of the one-element input NaN is not finite.
\<close>

theorem apply_mode_absorbance_nan_counterexample:
  "\<not> list_all isfinite (apply_mode ''Absorbance'' [NaN])"
  by (simp add: apply_mode_absorbance_eq absorbance_of_def fmaximum_def fminimum_def
      isnan_def isfinite_def sixteen_bit_scaled_def)


text \<open>
  The guard on the maximum, on an input with an infinite entry: the maximum is above 1.5,
  yet the entries are used as they are (the entry 100 becomes 0, not the absorbance of
  \<open>100 / 65535\<close>).
\<close>

lemma round_f32_nonzero:
  assumes "1 \<le> \<bar>x\<bar>"
  shows "round_f32 x \<noteq> Fin 0"
proof
  assume z: "round_f32 x = Fin 0"
  have x0: "x \<noteq> 0" using assms by auto
  let ?L = "\<lfloor>log 2 \<bar>x\<bar>\<rfloor>"
  let ?e = "f32_expo x"
  let ?m = "round_half_even (x / pow2 ?e)"
  have "0 \<le> log 2 \<bar>x\<bar>" using assms by simp
  then have "0 \<le> ?L" by simp
  then have "max (?L - 23) (- 149) = ?L - 23" by linarith
  then have eL: "?e = ?L - 23" unfolding f32_expo_def .
  have "pow2 23 * pow2 ?e = pow2 ?L" unfolding eL by (simp add: pow2_add [symmetric])
  also have "\<dots> \<le> \<bar>x\<bar>" by (rule log2_bounds(1) [OF x0])
  finally have "pow2 23 \<le> \<bar>x\<bar> / pow2 ?e"
    using pow2_pos [of ?e] by (simp only: pos_le_divide_eq)
  then have "of_int (2 ^ 23) \<le> \<bar>x / pow2 ?e\<bar>"
    using pow2_pos [of ?e] of_int_pow2 [of 23] by (simp only: abs_divide abs_of_pos) simp
  then have "2 ^ 23 \<le> \<bar>?m\<bar>" by (rule rhe_abs_ge)
  then have "?m \<noteq> 0" by auto
  then have "of_int ?m * pow2 ?e \<noteq> 0" using pow2_pos [of ?e] by simp
  then show False using z x0
    by (auto simp: round_f32_def Let_def split: if_splits)
qed

lemma absorbance_of_100: "absorbance_of (Fin 100) = Fin 0"
  by (simp add: absorbance_of_def fmaximum_def fminimum_def isnan_def as_float32_0
      del: as_float32.simps)

lemma absorbance_of_PInf: "absorbance_of PInf = Fin 0"
  by (simp add: absorbance_of_def fmaximum_def fminimum_def isnan_def as_float32_0
      del: as_float32.simps)

lemma as_float32_100: "as_float32 (Fin 100) = Fin 100"
  using as_float32_small_int [of 100] by simp

lemma absorbance_of_scaled_100: "absorbance_of (fmul (Fin 100) (Fin (1 / 65535))) \<noteq> Fin 0"
proof -
  have c: "fminimum (fmaximum (Fin (100 / 65535)) (Fin (1 / 10 ^ 8))) (Fin 1) = Fin (100 / 65535)"
    by (simp add: fmaximum_def fminimum_def isnan_def)
  have "log 10 (100 / 65535) \<le> log 10 (1 / 10)"
    by (subst log_le_cancel_iff) simp_all
  moreover have "log 10 (1 / 10) = - 1" by (simp add: log_recip)
  ultimately have "1 \<le> \<bar>- log 10 (100 / 65535)\<bar>" by simp
  then have "round_f32 (- log 10 (100 / 65535)) \<noteq> Fin 0" by (rule round_f32_nonzero)
  then show ?thesis
    using c by (simp add: absorbance_of_def)
qed

lemma apply_mode_absorbance_infinite_max:
  "flt (Fin (3 / 2)) (np_nanmax (map as_float32 [PInf, Fin 100]))
   \<and> apply_mode ''Absorbance'' [PInf, Fin 100] = [Fin 0, Fin 0]
   \<and> map (\<lambda>v. absorbance_of (fmul (as_float32 v) (Fin (1 / 65535)))) [PInf, Fin 100]
        \<noteq> [Fin 0, Fin 0]"
proof -
  have m: "np_nanmax (map as_float32 [PInf, Fin 100]) = PInf"
    by (simp add: np_nanmax_def as_float32_100 isnan_def del: as_float32.simps(1))
  have "\<not> sixteen_bit_scaled (map as_float32 [PInf, Fin 100])"
    unfolding sixteen_bit_scaled_def m by (simp add: isfinite_def)
  then have "apply_mode ''Absorbance'' [PInf, Fin 100] = [Fin 0, Fin 0]"
    by (simp add: apply_mode_absorbance_eq as_float32_100 absorbance_of_100 absorbance_of_PInf
        del: as_float32.simps(1))
  moreover have "flt (Fin (3 / 2)) (np_nanmax (map as_float32 [PInf, Fin 100]))"
    unfolding m by simp
  moreover have "map (\<lambda>v. absorbance_of (fmul (as_float32 v) (Fin (1 / 65535)))) [PInf, Fin 100]
        \<noteq> [Fin 0, Fin 0]"
    using absorbance_of_scaled_100 by (simp add: as_float32_100 del: as_float32.simps(1))
  ultimately show ?thesis by blast
qed

text \<open>
  Claim C4, amended. In Reflectance mode the output is the input converted to float32,
  element by element; every entry of the output is a float32 value; and the output is the
  input itself whenever the entries of the input are float32 values already.
\<close>

theorem apply_mode_reflectance:
  "apply_mode ''Reflectance'' y = map as_float32 y
   \<and> list_all is_float32 (apply_mode ''Reflectance'' y)
   \<and> (list_all is_float32 y \<longrightarrow> apply_mode ''Reflectance'' y = y)"
proof -
  have a: "apply_mode ''Reflectance'' y = map as_float32 y"
    by (simp add: apply_mode_def)
  have b: "list_all is_float32 (map as_float32 y)"
    by (simp add: list_all_iff as_float32_is_float32)
  have c: "map as_float32 y = y" if "list_all is_float32 y"
    using that by (induction y) (simp_all add: as_float32_exact del: as_float32.simps)
  show ?thesis using a b c by simp
qed

lemma is_float32_small_int: "\<bar>k\<bar> < 2 ^ 24 \<Longrightarrow> is_float32 (Fin (of_int k))"
  by (simp add: is_float32_def is_f32_real_small_int)

text \<open>
  Reflectance mode on an input of float32 values.
\<close>

theorem apply_mode_reflectance_witness:
  "list_all is_float32 [Fin 1, Fin 65535, NaN]
   \<and> apply_mode ''Reflectance'' [Fin 1, Fin 65535, NaN] = [Fin 1, Fin 65535, NaN]"
proof -
  have "is_float32 (Fin 1)" using is_float32_small_int [of 1] by simp
  moreover have "is_float32 (Fin 65535)" using is_float32_small_int [of 65535] by simp
  moreover have "is_float32 NaN" by (simp add: is_float32_def)
  ultimately have h: "list_all is_float32 [Fin 1, Fin 65535, NaN]" by simp
  with apply_mode_reflectance [of "[Fin 1, Fin 65535, NaN]"] show ?thesis by blast
qed

text \<open>
  Claim C4 as stated fails for an input that is not of type float32: \<open>2^24 + 1\<close> (an
  integer, or a float64) is not a float32 value and comes back as \<open>2^24\<close>.
\<close>

theorem apply_mode_reflectance_counterexample:
  "apply_mode ''Reflectance'' [Fin 16777217] = [Fin 16777216]
   \<and> apply_mode ''Reflectance'' [Fin 16777217] \<noteq> [Fin 16777217]"
  by (simp add: apply_mode_def round_f32_2p24_1)







text \<open>
  Claim C10. With derivative order \<^verbatim>\<open>"0th"\<close>, the smoothing of v1.6.7 returns what the
  smoothing of v1.6.2 returns, for every input, every base window and every behaviour of
  the filter, a failure of the filter included: both then take the moving average.
\<close>

theorem smoothing_zeroth_order_same:
  "apply_smoothing L base ''0th'' y = apply_smoothing_v162 L base y"
  by (simp add: apply_smoothing_def apply_smoothing_v162_def deriv_map_get_def Let_def
      split: option.splits sum.splits)

text \<open>
  When the filter fails both versions return the moving average; and the equality holds
  at the window of v1.6.2 in particular.
\<close>

lemma smoothing_fallback_on_failure:
  assumes "safe_window_length (int (length y)) base SG_MIN_WIN = Some w"
    and "savgol_filter L y (sg_window_fix w SG_POLYORDER) SG_POLYORDER 0 = Inl e"
  shows "apply_smoothing L base ''0th'' y = smoothing_fallback L y"
    and "apply_smoothing_v162 L base y = smoothing_fallback L y"
  using assms
  by (simp_all add: apply_smoothing_def apply_smoothing_v162_def deriv_map_get_def Let_def)

lemma smoothing_v162_constant:
  "apply_smoothing L SG_BASE_WIN_v162 ''0th'' y = apply_smoothing_v162 L SG_BASE_WIN_v162 y"
  by (simp add: apply_smoothing_def apply_smoothing_v162_def deriv_map_get_def Let_def
      split: option.splits sum.splits)

section \<open>Properties of the point cache\<close>

lemma fetch_raw_miss:
  assumes "pt_raw_cache st (point_src p, pt_x p, pt_y p) = None"
    and "pt_raw_cache st2 (point_src p, pt_x p, pt_y p) = None"
    and "data st2 = data st" and "path_var st2 = path_var st"
  shows "snd (fetch_raw E st2 p) = snd (fetch_raw E st p)"
  using assms
  by (simp add: fetch_raw_def point_src_def Let_def split: option.splits sum.splits prod.splits)

lemma fetch_raw_fields:
  "mode_var (fst (fetch_raw E st p)) = mode_var st"
  "noise_var (fst (fetch_raw E st p)) = noise_var st"
  "smooth_var (fst (fetch_raw E st p)) = smooth_var st"
  "snv_var (fst (fetch_raw E st p)) = snv_var st"
  "med_window (fst (fetch_raw E st p)) = med_window st"
  "sg_window (fst (fetch_raw E st p)) = sg_window st"
  "sg_deriv_var (fst (fetch_raw E st p)) = sg_deriv_var st"
  "wavelengths (fst (fetch_raw E st p)) = wavelengths st"
  "pt_proc_cache (fst (fetch_raw E st p)) = pt_proc_cache st"
  by (simp_all add: fetch_raw_def Let_def split: option.splits sum.splits prod.splits)

lemma get_point_proc_slice_snd:
  "snd (get_point_proc_slice L E st p i_lo i_hi) = slice_result L st p i_lo i_hi (snd (fetch_raw E st p))"
proof -
  obtain st1 r where f: "fetch_raw E st p = (st1, r)" by (cases "fetch_raw E st p")
  have flds: "mode_var st1 = mode_var st" "noise_var st1 = noise_var st"
    "smooth_var st1 = smooth_var st" "snv_var st1 = snv_var st" "med_window st1 = med_window st"
    "sg_window st1 = sg_window st" "sg_deriv_var st1 = sg_deriv_var st"
    "wavelengths st1 = wavelengths st" "pt_proc_cache st1 = pt_proc_cache st"
    using fetch_raw_fields [of E st p] f by simp_all
  show ?thesis
    by (simp add: get_point_proc_slice_def slice_result_def f flds proc_flags_def point_src_def
        Let_def split: option.splits sum.splits prod.splits ndarray.splits)
qed

lemma slice_result_cong:
  assumes "pt_proc_cache st2 (point_src p, pt_x p, pt_y p, proc_flags st2, i_lo, i_hi) = None"
    and "pt_proc_cache st (point_src p, pt_x p, pt_y p, proc_flags st, i_lo, i_hi) = None"
    and "mode_var st2 = mode_var st" "noise_var st2 = noise_var st"
    "smooth_var st2 = smooth_var st" "snv_var st2 = snv_var st" "med_window st2 = med_window st"
    "sg_window st2 = sg_window st" "sg_deriv_var st2 = sg_deriv_var st"
    "wavelengths st2 = wavelengths st"
  shows "slice_result L st2 p i_lo i_hi r = slice_result L st p i_lo i_hi r"
  using assms
  by (simp add: slice_result_def split: option.splits sum.splits ndarray.splits)

text \<open>
  Claim C7. After \<^verbatim>\<open>_invalidate_point_cache(src, x, y)\<close> the raw entry of the key and every
  processed entry whose key starts with it are gone; the entries of every other key, in
  both caches, and every other field of the state are as before; and the next
  \<^verbatim>\<open>_get_point_proc_slice\<close> for that point returns what it returns when both point caches
  are empty, that is, the value computed from the cube.
\<close>

theorem invalidate_point_cache_exact:
  "pt_raw_cache (invalidate_point_cache st src x y) (src, x, y) = None
   \<and> (\<forall>fl lo hi. pt_proc_cache (invalidate_point_cache st src x y) (src, x, y, fl, lo, hi) = None)
   \<and> (\<forall>k. k \<noteq> (src, x, y) \<longrightarrow>
         pt_raw_cache (invalidate_point_cache st src x y) k = pt_raw_cache st k)
   \<and> (\<forall>s kx ky rest. (s, kx, ky) \<noteq> (src, x, y) \<longrightarrow>
         pt_proc_cache (invalidate_point_cache st src x y) (s, kx, ky, rest)
           = pt_proc_cache st (s, kx, ky, rest))
   \<and> invalidate_point_cache st src x y
       = st\<lparr>pt_raw_cache := pt_raw_cache (invalidate_point_cache st src x y),
             pt_proc_cache := pt_proc_cache (invalidate_point_cache st src x y)\<rparr>
   \<and> (point_src p = src \<and> pt_x p = x \<and> pt_y p = y \<longrightarrow>
         snd (get_point_proc_slice L E (invalidate_point_cache st src x y) p i_lo i_hi)
           = snd (get_point_proc_slice L E
                    (st\<lparr>pt_raw_cache := Map.empty, pt_proc_cache := Map.empty\<rparr>) p i_lo i_hi))"
proof -
  let ?st' = "invalidate_point_cache st src x y"
  let ?e = "st\<lparr>pt_raw_cache := Map.empty, pt_proc_cache := Map.empty\<rparr>"
  have a: "pt_raw_cache ?st' (src, x, y) = None"
    by (simp add: invalidate_point_cache_def)
  have b: "pt_proc_cache ?st' (src, x, y, fl, lo, hi) = None" for fl lo hi
    by (simp add: invalidate_point_cache_def)
  have c: "pt_raw_cache ?st' k = pt_raw_cache st k" if "k \<noteq> (src, x, y)" for k
    using that by (simp add: invalidate_point_cache_def)
  have d: "pt_proc_cache ?st' (s, kx, ky, rest) = pt_proc_cache st (s, kx, ky, rest)"
    if "(s, kx, ky) \<noteq> (src, x, y)" for s kx ky rest
    using that by (auto simp: invalidate_point_cache_def)
  have e: "?st' = st\<lparr>pt_raw_cache := pt_raw_cache ?st', pt_proc_cache := pt_proc_cache ?st'\<rparr>"
    by (simp add: invalidate_point_cache_def)
  have f: "snd (get_point_proc_slice L E ?st' p i_lo i_hi)
      = snd (get_point_proc_slice L E ?e p i_lo i_hi)"
    if p: "point_src p = src \<and> pt_x p = x \<and> pt_y p = y"
  proof -
    have "snd (fetch_raw E ?st' p) = snd (fetch_raw E ?e p)"
      using p by (intro fetch_raw_miss) (simp_all add: invalidate_point_cache_def)
    moreover have "slice_result L ?st' p i_lo i_hi r = slice_result L ?e p i_lo i_hi r" for r
      using p by (intro slice_result_cong) (simp_all add: invalidate_point_cache_def proc_flags_def)
    ultimately show ?thesis by (simp only: get_point_proc_slice_snd)
  qed
  show ?thesis using a b c d e f by blast
qed

lemma as_float32_numeral:
  "(numeral n :: int) < 2 ^ 24 \<Longrightarrow> as_float32 (Fin (numeral n)) = Fin (numeral n)"
  using as_float32_small_int [of "numeral n"] by simp

lemma ex_fresh:
  "snd (get_point_proc_slice exact_lib ex_env
          (ex_app\<lparr>pt_raw_cache := Map.empty, pt_proc_cache := Map.empty\<rparr>) ex_point 0 3)
     = Inr (Some ([500, 510, 520, 530], [Fin 1, Fin 2, Fin 3, Fin 4]))"
  by (simp add: get_point_proc_slice_def fetch_raw_def ex_app_def ex_point_def ex_env_def
      ex_cube_def same_source_def cube_pixel_def squeeze_def proc_flags_def py_slice_def
      apply_mode_def process_spectrum_def Let_def upt_rec as_float32_numeral as_float32_1
      del: as_float32.simps)

lemma ex_stale:
  "snd (get_point_proc_slice exact_lib ex_env ex_app ex_point 0 3)
     = Inr (Some ([500, 510, 520, 530], [Fin 9, Fin 9, Fin 9, Fin 9]))"
  by (simp add: get_point_proc_slice_def fetch_raw_def ex_app_def ex_point_def ex_env_def
      ex_flags_def proc_flags_def py_slice_def Let_def)

text \<open>
  The invalidation on the small session: the entries of the point \<open>(0, 0)\<close> go, those of
  \<open>(1, 1)\<close> stay, and the next read of \<open>(0, 0)\<close> returns the values of the cube where the
  read before returned the cached ones.
\<close>

theorem invalidate_point_cache_exact_witness:
  "pt_raw_cache (invalidate_point_cache ex_app ''cube.hdr'' 0 0) (''cube.hdr'', 0, 0) = None
   \<and> pt_proc_cache (invalidate_point_cache ex_app ''cube.hdr'' 0 0)
        (''cube.hdr'', 0, 0, ex_flags, 0, 3) = None
   \<and> pt_raw_cache (invalidate_point_cache ex_app ''cube.hdr'' 0 0) (''cube.hdr'', 1, 1)
        = Some (Arr [Fin 7, Fin 7, Fin 7, Fin 7])
   \<and> pt_proc_cache (invalidate_point_cache ex_app ''cube.hdr'' 0 0)
        (''cube.hdr'', 1, 1, ex_flags, 0, 3) = Some [Fin 7, Fin 7, Fin 7, Fin 7]
   \<and> snd (get_point_proc_slice exact_lib ex_env ex_app ex_point 0 3)
        = Inr (Some ([500, 510, 520, 530], [Fin 9, Fin 9, Fin 9, Fin 9]))
   \<and> snd (get_point_proc_slice exact_lib ex_env
             (invalidate_point_cache ex_app ''cube.hdr'' 0 0) ex_point 0 3)
        = Inr (Some ([500, 510, 520, 530], [Fin 1, Fin 2, Fin 3, Fin 4]))"
proof -
  note t = invalidate_point_cache_exact
    [of ex_app "''cube.hdr''" 0 0 ex_point exact_lib ex_env 0 3]
  have p: "point_src ex_point = ''cube.hdr'' \<and> pt_x ex_point = 0 \<and> pt_y ex_point = 0"
    by (simp add: point_src_def ex_point_def)
  have a: "pt_raw_cache (invalidate_point_cache ex_app ''cube.hdr'' 0 0) (''cube.hdr'', 0, 0) = None"
    using t by blast
  have b: "pt_proc_cache (invalidate_point_cache ex_app ''cube.hdr'' 0 0)
        (''cube.hdr'', 0, 0, ex_flags, 0, 3) = None"
    using t by blast
  have "pt_raw_cache (invalidate_point_cache ex_app ''cube.hdr'' 0 0) (''cube.hdr'', 1, 1)
      = pt_raw_cache ex_app (''cube.hdr'', 1, 1)"
    using t by simp
  then have c: "pt_raw_cache (invalidate_point_cache ex_app ''cube.hdr'' 0 0) (''cube.hdr'', 1, 1)
        = Some (Arr [Fin 7, Fin 7, Fin 7, Fin 7])"
    by (simp add: ex_app_def)
  have "\<forall>s kx ky rest. (s, kx, ky) \<noteq> (''cube.hdr'', 0, 0) \<longrightarrow>
      pt_proc_cache (invalidate_point_cache ex_app ''cube.hdr'' 0 0) (s, kx, ky, rest)
        = pt_proc_cache ex_app (s, kx, ky, rest)"
    using t by blast
  from this [rule_format, of "''cube.hdr''" 1 1 "(ex_flags, 0, 3)"]
  have "pt_proc_cache (invalidate_point_cache ex_app ''cube.hdr'' 0 0)
        (''cube.hdr'', 1, 1, ex_flags, 0, 3) = pt_proc_cache ex_app (''cube.hdr'', 1, 1, ex_flags, 0, 3)"
    by simp
  then have d: "pt_proc_cache (invalidate_point_cache ex_app ''cube.hdr'' 0 0)
        (''cube.hdr'', 1, 1, ex_flags, 0, 3) = Some [Fin 7, Fin 7, Fin 7, Fin 7]"
    by (simp add: ex_app_def)
  have e: "snd (get_point_proc_slice exact_lib ex_env
             (invalidate_point_cache ex_app ''cube.hdr'' 0 0) ex_point 0 3)
        = Inr (Some ([500, 510, 520, 530], [Fin 1, Fin 2, Fin 3, Fin 4]))"
    using t p ex_fresh by simp
  show ?thesis using a b c d e ex_stale by simp
qed

section \<open>Properties of the polygon deletion\<close>

lemma first_index_bound: "first_index P xs = Some i \<Longrightarrow> i < length xs"
  by (induction xs arbitrary: i) (auto split: if_splits)

lemma find_containing_eq:
  "find_containing pgs x y i = map_option (\<lambda>j. i + j) (first_index (tier1 x y) pgs)"
proof (induction pgs arbitrary: i)
  case Nil
  show ?case by simp
next
  case (Cons pg pgs)
  have "find_containing (pg # pgs) x y i
      = (if tier1 x y pg then Some i else find_containing pgs x y (Suc i))"
    by (auto simp: tier1_def)
  then show ?case
    by (simp add: Cons option.map_comp comp_def)
qed

lemma find_near_eq:
  assumes "rad2 = real_of_int rad * (3 / 2)"
  shows "find_near pgs x y rad rad2 i
     = map_option (\<lambda>j. i + j) (first_index (\<lambda>pg. tier2 x y rad pg \<or> tier3 x y rad pg) pgs)"
proof (induction pgs arbitrary: i)
  case Nil
  show ?case by simp
next
  case (Cons pg pgs)
  have "find_near (pg # pgs) x y rad rad2 i
      = (if tier2 x y rad pg \<or> tier3 x y rad pg then Some i
         else find_near pgs x y rad rad2 (Suc i))"
    unfolding assms by (auto simp: tier2_def tier3_def)
  then show ?case
    by (simp add: Cons option.map_comp comp_def)
qed

lemma polygon_major_choice_bound:
  "polygon_major_choice pgs x y rad = Some i \<Longrightarrow> i < length pgs"
  by (auto simp: polygon_major_choice_def first_index_bound split: option.splits)

lemma polygons_pop_polygon:
  "polygons (pop_polygon st i) = take i (polygons st) @ drop (Suc i) (polygons st)"
  by (simp add: pop_polygon_def invalidate_polygon_cache_def Let_def)

text \<open>
  Claim C6, amended. \<^verbatim>\<open>_delete_polygon_near\<close> removes the first polygon, in list order,
  that contains the click; when none does, it removes the first polygon, in list order,
  that has a vertex within the radius or an edge within 1.5 times the radius of the click
  (both tests are made on a polygon before the next polygon is looked at); otherwise it
  removes nothing and returns \<open>False\<close>. A removal takes exactly one polygon out of the list
  and leaves the others in their order.
\<close>

theorem delete_polygon_near_order:
  "delete_polygon_near st x y radius
     = (case polygon_major_choice (polygons st) x y (radius_or_default radius) of
          Some i \<Rightarrow> (pop_polygon st i, True)
        | None \<Rightarrow> (st, False))
   \<and> (\<forall>i. polygon_major_choice (polygons st) x y (radius_or_default radius) = Some i \<longrightarrow>
          i < length (polygons st)
        \<and> polygons (pop_polygon st i) = take i (polygons st) @ drop (Suc i) (polygons st)
        \<and> Suc (length (polygons (pop_polygon st i))) = length (polygons st))"
proof -
  let ?rad = "radius_or_default radius"
  have a: "delete_polygon_near st x y radius
     = (case polygon_major_choice (polygons st) x y ?rad of
          Some i \<Rightarrow> (pop_polygon st i, True)
        | None \<Rightarrow> (st, False))"
  proof (cases "polygons st = []")
    case True
    then show ?thesis
      by (simp add: delete_polygon_near_def polygon_major_choice_def)
  next
    case False
    then show ?thesis
      unfolding delete_polygon_near_def polygon_major_choice_def Let_def
        radius_or_default_def [symmetric] find_containing_eq find_near_eq [OF refl]
      by (auto split: option.splits)
  qed
  have b: "i < length (polygons st)
        \<and> polygons (pop_polygon st i) = take i (polygons st) @ drop (Suc i) (polygons st)
        \<and> Suc (length (polygons (pop_polygon st i))) = length (polygons st)"
    if "polygon_major_choice (polygons st) x y ?rad = Some i" for i
  proof -
    have "i < length (polygons st)" using that by (rule polygon_major_choice_bound)
    then show ?thesis by (auto simp: polygons_pop_polygon)
  qed
  show ?thesis using a b by blast
qed

lemma sqrt_100: "sqrt 100 = 10"
  using real_sqrt_abs [of 10] by simp

lemma not_tier1_poly0: "\<not> tier1 50 10 poly0"
  by (simp add: tier1_def poly0_def contains_point_def closed_edges_def crosses_def)

lemma not_tier1_poly1: "\<not> tier1 50 10 poly1"
  by (simp add: tier1_def poly1_def contains_point_def closed_edges_def crosses_def)

lemma not_tier2_poly0: "\<not> tier2 50 10 8 poly0"
  by (simp add: tier2_def poly0_def vertex_hit_def)

lemma tier2_poly1: "tier2 50 10 8 poly1"
  by (simp add: tier2_def poly1_def vertex_hit_def)

lemma tier3_poly0: "tier3 50 10 8 poly0"
  by (simp add: tier3_def poly0_def edge_hit_def closed_edges_def pt_seg_dist_def Let_def sqrt_100)

lemma ex_polygon_major: "polygon_major_choice [poly0, poly1] 50 10 8 = Some 0"
  by (simp add: polygon_major_choice_def not_tier1_poly0 not_tier1_poly1 tier3_poly0)

lemma ex_tier_major: "tier_major_choice [poly0, poly1] 50 10 8 = Some 1"
  by (simp add: tier_major_choice_def not_tier1_poly0 not_tier1_poly1 not_tier2_poly0 tier2_poly1)

text \<open>
  The deletion on the two triangles: the first one goes.
\<close>

theorem delete_polygon_near_order_witness:
  "delete_polygon_near ex_poly_app 50 10 None = (pop_polygon ex_poly_app 0, True)
   \<and> polygons (pop_polygon ex_poly_app 0) = [poly1]
   \<and> Suc (length (polygons (pop_polygon ex_poly_app 0))) = length (polygons ex_poly_app)"
proof -
  have c: "polygon_major_choice (polygons ex_poly_app) 50 10 (radius_or_default None) = Some 0"
    by (simp add: ex_poly_app_def radius_or_default_def DELETE_RADIUS_PX_def ex_polygon_major)
  from delete_polygon_near_order [of ex_poly_app 50 10 None] c
  have "delete_polygon_near ex_poly_app 50 10 None = (pop_polygon ex_poly_app 0, True)"
    and "polygons (pop_polygon ex_poly_app 0)
           = take 0 (polygons ex_poly_app) @ drop (Suc 0) (polygons ex_poly_app)"
    and "Suc (length (polygons (pop_polygon ex_poly_app 0))) = length (polygons ex_poly_app)"
    by simp_all
  then show ?thesis by (simp add: ex_poly_app_def)
qed

text \<open>
  Claim C6 as stated fails: with the two triangles above, the order of the claim (tier 2
  on every polygon before tier 3 on any) selects the second polygon, whose vertex is
  near; the program removes the first, whose edge is near, and the second stays.
\<close>

theorem delete_polygon_near_tier_major_counterexample:
  "tier_major_choice (polygons ex_poly_app) 50 10 DELETE_RADIUS_PX = Some 1
   \<and> polygons (fst (delete_polygon_near ex_poly_app 50 10 None)) = [poly1]
   \<and> poly0 \<noteq> poly1"
proof -
  have "find_containing [poly0, poly1] 50 10 0 = None"
    using not_tier1_poly0 not_tier1_poly1 by (simp add: tier1_def)
  moreover have "find_near [poly0, poly1] 50 10 8 (8 * (3 / 2)) 0 = Some 0"
    using not_tier2_poly0 tier3_poly0 by (simp add: tier2_def tier3_def poly0_def)
  ultimately have "polygons (fst (delete_polygon_near ex_poly_app 50 10 None)) = [poly1]"
    by (simp add: delete_polygon_near_def ex_poly_app_def DELETE_RADIUS_PX_def
        polygons_pop_polygon)
  moreover have "poly0 \<noteq> poly1" by (simp add: poly0_def poly1_def)
  ultimately show ?thesis
    by (simp add: ex_poly_app_def DELETE_RADIUS_PX_def ex_tier_major)
qed

section \<open>Properties of the export of points\<close>















section \<open>Properties of the export of polygons\<close>











end
